theory Spec2Isabelle
  imports Complex_Main "HOL-Library.Word" "HOL-Library.AList"
begin

section \<open>JavaScript values used by the loader\<close>

subsection \<open>Numbers\<close>

text \<open>
  A JavaScript number that holds a coordinate, a length or an area is an IEEE-754 value:
  not-a-number, one of the two infinities, or a finite value. Finite values are
  modelled as exact reals: rounding (of double arithmetic and of the stores into a
  \<^verbatim>\<open>Float32Array\<close>), overflow and the sign of zero are not modelled. The single zero
  divides like \<^verbatim>\<open>+0\<close>; every divisor of \<^verbatim>\<open>recalcNormals\<close> is a \<^verbatim>\<open>Math.hypot\<close> result or a
  sum that starts at the literal \<^verbatim>\<open>0\<close>, neither of which is ever \<^verbatim>\<open>-0\<close>.
\<close>

datatype num = NaN | PInf | NInf | Fin real

fun fneg :: "num \<Rightarrow> num" where
  "fneg NaN = NaN"
| "fneg PInf = NInf"
| "fneg NInf = PInf"
| "fneg (Fin a) = Fin (- a)"

fun fadd :: "num \<Rightarrow> num \<Rightarrow> num" where
  "fadd NaN y = NaN"
| "fadd x NaN = NaN"
| "fadd PInf NInf = NaN"
| "fadd NInf PInf = NaN"
| "fadd PInf y = PInf"
| "fadd NInf y = NInf"
| "fadd (Fin a) PInf = PInf"
| "fadd (Fin a) NInf = NInf"
| "fadd (Fin a) (Fin b) = Fin (a + b)"

definition fsub :: "num \<Rightarrow> num \<Rightarrow> num" where
  "fsub x y = fadd x (fneg y)"

text \<open>The sign of an infinite product or quotient: the infinity times the sign of \<open>a\<close>.\<close>

definition signedInf :: "bool \<Rightarrow> num" where
  "signedInf positive = (if positive then PInf else NInf)"

fun isPositive :: "num \<Rightarrow> bool" where
  "isPositive PInf = True"
| "isPositive NInf = False"
| "isPositive (Fin a) = (0 \<le> a)"
| "isPositive NaN = False"

fun fmul :: "num \<Rightarrow> num \<Rightarrow> num" where
  "fmul NaN y = NaN"
| "fmul x NaN = NaN"
| "fmul (Fin a) (Fin b) = Fin (a * b)"
| "fmul (Fin a) y = (if a = 0 then NaN else signedInf (isPositive (Fin a) = isPositive y))"
| "fmul x (Fin b) = (if b = 0 then NaN else signedInf (isPositive x = isPositive (Fin b)))"
| "fmul x y = signedInf (isPositive x = isPositive y)"

fun fdiv :: "num \<Rightarrow> num \<Rightarrow> num" where
  "fdiv NaN y = NaN"
| "fdiv x NaN = NaN"
| "fdiv (Fin a) (Fin b) =
     (if b = 0 then (if a = 0 then NaN else signedInf (0 < a)) else Fin (a / b))"
| "fdiv (Fin a) y = Fin 0"
| "fdiv x (Fin b) = signedInf (isPositive x = isPositive (Fin b))"
| "fdiv x y = NaN"

text \<open>\<^verbatim>\<open>Math.sqrt\<close>: not-a-number below zero.\<close>

fun fsqrt :: "num \<Rightarrow> num" where
  "fsqrt NaN = NaN"
| "fsqrt PInf = PInf"
| "fsqrt NInf = NaN"
| "fsqrt (Fin a) = (if a < 0 then NaN else Fin (sqrt a))"

fun isInf :: "num \<Rightarrow> bool" where
  "isInf PInf = True"
| "isInf NInf = True"
| "isInf x = False"

text \<open>
  \<^verbatim>\<open>Math.hypot(x, y, z)\<close>: infinite as soon as one argument is infinite, else not-a-number
  as soon as one is, else the square root of the sum of the squares.
\<close>

fun hypot :: "num \<Rightarrow> num \<Rightarrow> num \<Rightarrow> num" where
  "hypot (Fin a) (Fin b) (Fin c) = Fin (sqrt (a * a + b * b + c * c))"
| "hypot x y z = (if isInf x \<or> isInf y \<or> isInf z then PInf else NaN)"

subsection \<open>Indices\<close>

text \<open>
  A number that is used as an index is the result of \<^verbatim>\<open>parseInt(s) - 1\<close>: an integer
  that a double represents, an infinity, or not-a-number. Reading past the end of a
  JavaScript array gives \<^verbatim>\<open>undefined\<close>, which is none of these.
\<close>

datatype index = Undefined | NotANumber | PlusInfinity | MinusInfinity | Index int

text \<open>
  The double nearest to a natural number, ties going to the even significand of 53 bits:
  the number itself when it has at most 53 bits, else a multiple of the power of two
  that leaves 53 bits, and \<open>None\<close> for the infinity that is the result from
  \<open>2\<^sup>1\<^sup>0\<^sup>2\<^sup>4\<close> on.
\<close>

fun bitLength :: "nat \<Rightarrow> nat" where
  "bitLength n = (if n = 0 then 0 else Suc (bitLength (n div 2)))"

declare bitLength.simps [simp del]

definition roundToDouble :: "nat \<Rightarrow> nat option" where
  "roundToDouble n =
     (if bitLength n \<le> 53 then Some n
      else
        let e = bitLength n - 53; q = n div 2 ^ e; r = n mod 2 ^ e; half = 2 ^ (e - 1);
            d = (if r < half \<or> (r = half \<and> even q) then q * 2 ^ e else (q + 1) * 2 ^ e)
        in if 2 ^ 1024 \<le> d then None else Some d)"

text \<open>The number of a sign and a magnitude.\<close>

definition toNumber :: "bool \<Rightarrow> nat \<Rightarrow> index" where
  "toNumber neg n =
     (case roundToDouble n of
        None \<Rightarrow> if neg then MinusInfinity else PlusInfinity
      | Some d \<Rightarrow> Index (if neg then - int d else int d))"

text \<open>
  \<^verbatim>\<open>x - 1\<close> in double arithmetic: the exact difference, rounded; an infinity stays, and
  \<^verbatim>\<open>NaN - 1\<close> and \<^verbatim>\<open>undefined - 1\<close> are \<^verbatim>\<open>NaN\<close>.
\<close>

fun decrement :: "index \<Rightarrow> index" where
  "decrement (Index i) = toNumber (i - 1 < 0) (nat \<bar>i - 1\<bar>)"
| "decrement PlusInfinity = PlusInfinity"
| "decrement MinusInfinity = MinusInfinity"
| "decrement x = NotANumber"

text \<open>\<^verbatim>\<open>a[k]\<close> on an array of numbers.\<close>

definition entry :: "index list \<Rightarrow> nat \<Rightarrow> index" where
  "entry a k = (if k < length a then a ! k else Undefined)"

text \<open>
  \<^verbatim>\<open>i * m + k\<close> for an index \<open>i\<close>: an integer when \<open>i\<close> is one, otherwise no integer
  (\<open>None\<close>), since \<^verbatim>\<open>undefined * m\<close> and \<^verbatim>\<open>NaN * m\<close> are both \<^verbatim>\<open>NaN\<close> and an infinity
  stays one. The integer is exact here; beyond \<open>2\<^sup>5\<^sup>3\<close> the double is a rounded one, which
  is an element index of no typed array either, a typed array being shorter than that.
\<close>

fun flat :: "index \<Rightarrow> int \<Rightarrow> int \<Rightarrow> int option" where
  "flat (Index i) m k = Some (i * m + k)"
| "flat x m k = None"

subsection \<open>Typed arrays\<close>

text \<open>
  A \<^verbatim>\<open>Float32Array\<close> is a list of numbers of fixed length. A read at an index that is
  not an element index gives \<^verbatim>\<open>undefined\<close>; every such read in the loader is an operand
  of arithmetic or the value of a store into a \<^verbatim>\<open>Float32Array\<close>, where
  \<^verbatim>\<open>undefined\<close> becomes \<^verbatim>\<open>NaN\<close>, so the read returns \<open>NaN\<close> at once. A write at an
  index that is not an element index is ignored.
\<close>

definition f32get :: "num list \<Rightarrow> int option \<Rightarrow> num" where
  "f32get a j =
     (case j of
        None \<Rightarrow> NaN
      | Some i \<Rightarrow> if 0 \<le> i \<and> nat i < length a then a ! nat i else NaN)"

definition f32set :: "num list \<Rightarrow> int option \<Rightarrow> num \<Rightarrow> num list" where
  "f32set a j v =
     (case j of
        None \<Rightarrow> a
      | Some i \<Rightarrow> if 0 \<le> i \<and> nat i < length a then a[nat i := v] else a)"

section \<open>The mesh: \<^verbatim>\<open>TetFile\<close>\<close>

datatype error = TypeError

type_synonym corner = "index list"
type_synonym face = "corner list"

text \<open>
  The render geometry, as far as the loader touches it: the \<^verbatim>\<open>needsUpdate\<close> flags of
  its \<^verbatim>\<open>position\<close> and \<^verbatim>\<open>normal\<close> attributes.
\<close>

record geometry =
  positionNeedsUpdate :: bool
  normalNeedsUpdate :: bool

text \<open>
  \<^verbatim>\<open>connectedFaces\<close> is a \<^verbatim>\<open>Map\<close>: an association list in insertion order. The face
  indices it holds are the loop counters of \<^verbatim>\<open>loadTet\<close>, natural numbers.
\<close>

record tetFile =
  vertices :: "num list"
  tetsIndices :: "32 word list"
  normals :: "num list"
  texCoords :: "num list"
  faceNormals :: "num list"
  faceAreas :: "num list"
  faces :: "face list"
  connectedFaces :: "(index \<times> nat list) list"
  verticesPositions :: "num list"
  verticesTexCoords :: "num list"
  verticesNormals :: "num list"
  geometry :: "geometry option"
  triangleCount :: nat

subsection \<open>\<^verbatim>\<open>recalcNormals\<close>\<close>

text \<open>
  The first loop's body, for the face at \<open>faceIndex\<close>. \<^verbatim>\<open>face[k][0]\<close> throws a
  \<^verbatim>\<open>TypeError\<close> when the face has no corner \<open>k\<close>; all three reads come before the
  first write.
\<close>

definition recalcFace :: "num list \<Rightarrow> face \<Rightarrow> nat \<Rightarrow> num list \<times> num list \<Rightarrow>
    error + (num list \<times> num list)" where
  "recalcFace vs face faceIndex bufs =
     (if length face < 3 then Inl TypeError
      else
        let v0 = entry (face ! 0) 0; v1 = entry (face ! 1) 0; v2 = entry (face ! 2) 0;
            x0 = f32get vs (flat v0 3 0);
            y0 = f32get vs (flat v0 3 1);
            z0 = f32get vs (flat v0 3 2);
            x1 = f32get vs (flat v1 3 0);
            y1 = f32get vs (flat v1 3 1);
            z1 = f32get vs (flat v1 3 2);
            x2 = f32get vs (flat v2 3 0);
            y2 = f32get vs (flat v2 3 1);
            z2 = f32get vs (flat v2 3 2);
            xA = fsub x0 x1; yA = fsub y0 y1; zA = fsub z0 z1;
            xB = fsub x0 x2; yB = fsub y0 y2; zB = fsub z0 z2;
            xC = fsub x1 x2; yC = fsub y1 y2; zC = fsub z1 z2;
            a = hypot xA yA zA;
            b = hypot xB yB zB;
            c = hypot xC yC zC;
            s = fmul (fadd (fadd a b) c) (Fin 0.5);
            area = fsqrt (fmul (fmul (fmul s (fsub s a)) (fsub s b)) (fsub s c));
            xN = fsub (fmul yA zB) (fmul zA yB);
            yN = fsub (fmul zA xB) (fmul xA zB);
            zN = fsub (fmul xA yB) (fmul yA xB);
            n = hypot xN yN zN;
            fn0 = f32set (fst bufs) (Some (int faceIndex * 3 + 0)) (fdiv xN n);
            fn1 = f32set fn0 (Some (int faceIndex * 3 + 1)) (fdiv yN n);
            fn2 = f32set fn1 (Some (int faceIndex * 3 + 2)) (fdiv zN n)
        in Inr (fn2, f32set (snd bufs) (Some (int faceIndex)) area))"

text \<open>
  The first loop, from \<open>faceIndex\<close> on, over the faces that are left. The pair is
  \<^verbatim>\<open>(faceNormals, faceAreas)\<close>. An exception ends the call; the buffers it leaves
  half-written are not part of the result.
\<close>

fun recalcFaces :: "num list \<Rightarrow> face list \<Rightarrow> nat \<Rightarrow> num list \<times> num list \<Rightarrow>
    error + (num list \<times> num list)" where
  "recalcFaces vs [] faceIndex bufs = Inr bufs"
| "recalcFaces vs (face # rest) faceIndex bufs =
     (case recalcFace vs face faceIndex bufs of
        Inl e \<Rightarrow> Inl e
      | Inr bufs' \<Rightarrow> recalcFaces vs rest (Suc faceIndex) bufs')"

text \<open>
  The inner loop of the second loop: the running sums \<^verbatim>\<open>(vnx, vny, vnz, areaSum)\<close> over
  the faces connected to one vertex.
\<close>

fun sumConnections :: "num list \<Rightarrow> num list \<Rightarrow> nat list \<Rightarrow> num \<times> num \<times> num \<times> num \<Rightarrow>
    num \<times> num \<times> num \<times> num" where
  "sumConnections fns fas [] acc = acc"
| "sumConnections fns fas (faceIndex # rest) (vnx, vny, vnz, areaSum) =
     (let fnx = f32get fns (Some (int faceIndex * 3 + 0));
          fny = f32get fns (Some (int faceIndex * 3 + 1));
          fnz = f32get fns (Some (int faceIndex * 3 + 2));
          faceArea = f32get fas (Some (int faceIndex))
      in sumConnections fns fas rest
           (fadd vnx fnx, fadd vny fny, fadd vnz fnz, fadd areaSum faceArea))"

text \<open>The second loop's body for one entry of \<^verbatim>\<open>connectedFaces\<close>; \<open>ns\<close> is \<^verbatim>\<open>normals\<close>.\<close>

definition recalcVertex :: "num list \<Rightarrow> num list \<Rightarrow> index \<times> nat list \<Rightarrow> num list \<Rightarrow> num list"
  where
  "recalcVertex fns fas e ns =
     (let vertexIndex = fst e; connections = snd e;
          (vnx, vny, vnz, areaSum) =
             sumConnections fns fas connections (Fin 0, Fin 0, Fin 0, Fin 0);
          vnx = fdiv vnx areaSum; vny = fdiv vny areaSum; vnz = fdiv vnz areaSum;
          len = hypot vnx vny vnz;
          vnx = fdiv vnx len; vny = fdiv vny len; vnz = fdiv vnz len;
          ns0 = f32set ns (flat vertexIndex 3 0) vnx;
          ns1 = f32set ns0 (flat vertexIndex 3 1) vny
      in f32set ns1 (flat vertexIndex 3 2) vnz)"

fun recalcVertices :: "num list \<Rightarrow> num list \<Rightarrow> (index \<times> nat list) list \<Rightarrow> num list \<Rightarrow> num list"
  where
  "recalcVertices fns fas [] ns = ns"
| "recalcVertices fns fas (e # rest) ns = recalcVertices fns fas rest (recalcVertex fns fas e ns)"

text \<open>
  The third loop: one entry of the per-corner buffer for every corner of every face
  (\<^verbatim>\<open>face.length\<close> of them, not three), in order; \<open>src\<close> is \<^verbatim>\<open>normals\<close>, the pair is
  \<^verbatim>\<open>(verticesNormals, vertexVisualIndex)\<close>. \<^verbatim>\<open>copyDataToBuffer\<close> runs the same loop from
  \<^verbatim>\<open>vertices\<close> into \<^verbatim>\<open>verticesPositions\<close>.
\<close>

definition expandCorner :: "num list \<Rightarrow> corner \<Rightarrow> num list \<times> nat \<Rightarrow> num list \<times> nat" where
  "expandCorner src faceEntry st =
     (let vertexIndex = entry faceEntry 0; vertexVisualIndex = snd st;
          b0 = f32set (fst st) (Some (int vertexVisualIndex * 3 + 0)) (f32get src (flat vertexIndex 3 0));
          b1 = f32set b0 (Some (int vertexVisualIndex * 3 + 1)) (f32get src (flat vertexIndex 3 1));
          b2 = f32set b1 (Some (int vertexVisualIndex * 3 + 2)) (f32get src (flat vertexIndex 3 2))
      in (b2, Suc vertexVisualIndex))"

fun expandFace :: "num list \<Rightarrow> face \<Rightarrow> num list \<times> nat \<Rightarrow> num list \<times> nat" where
  "expandFace src [] st = st"
| "expandFace src (faceEntry # rest) st = expandFace src rest (expandCorner src faceEntry st)"

fun expandFaces :: "num list \<Rightarrow> face list \<Rightarrow> num list \<times> nat \<Rightarrow> num list \<times> nat" where
  "expandFaces src [] st = st"
| "expandFaces src (face # rest) st = expandFaces src rest (expandFace src face st)"

text \<open>The notification: set when the geometry is there, skipped when it is not.\<close>

definition markNormal :: "geometry option \<Rightarrow> geometry option" where
  "markNormal g = (case g of None \<Rightarrow> None | Some x \<Rightarrow> Some (x\<lparr>normalNeedsUpdate := True\<rparr>))"

definition markPosition :: "geometry option \<Rightarrow> geometry option" where
  "markPosition g = (case g of None \<Rightarrow> None | Some x \<Rightarrow> Some (x\<lparr>positionNeedsUpdate := True\<rparr>))"

definition recalcNormals :: "tetFile \<Rightarrow> error + tetFile" where
  "recalcNormals t =
     (case recalcFaces (vertices t) (faces t) 0 (faceNormals t, faceAreas t) of
        Inl e \<Rightarrow> Inl e
      | Inr (fns, fas) \<Rightarrow>
          let ns = recalcVertices fns fas (connectedFaces t) (normals t);
              vns = fst (expandFaces ns (faces t) (verticesNormals t, 0))
          in Inr (t\<lparr>faceNormals := fns, faceAreas := fas, normals := ns,
                    verticesNormals := vns, geometry := markNormal (geometry t)\<rparr>))"

subsection \<open>\<^verbatim>\<open>copyDataToBuffer\<close>\<close>

definition copyDataToBuffer :: "tetFile \<Rightarrow> tetFile" where
  "copyDataToBuffer t =
     t\<lparr>verticesPositions := fst (expandFaces (vertices t) (faces t) (verticesPositions t, 0)),
       geometry := markPosition (geometry t)\<rparr>"

section \<open>The parser: \<^verbatim>\<open>parseTetFile\<close>\<close>

subsection \<open>Strings\<close>

text \<open>
  A string is a list of characters; a character stands for a UTF-16 code unit below 256,
  so the text of a mesh file is taken to be in that range.
\<close>

abbreviation LF :: char where "LF \<equiv> CHR 0x0A"
abbreviation CR :: char where "CR \<equiv> CHR 0x0D"

text \<open>\<^verbatim>\<open>a[k]\<close> on an array of strings: \<open>None\<close> is \<^verbatim>\<open>undefined\<close>.\<close>

definition elemAt :: "'a list \<Rightarrow> nat \<Rightarrow> 'a option" where
  "elemAt a k = (if k < length a then Some (a ! k) else None)"

text \<open>Puts a character in front of the first piece of a split.\<close>

fun consHead :: "char \<Rightarrow> string list \<Rightarrow> string list" where
  "consHead c [] = [[c]]"
| "consHead c (l # ls) = (c # l) # ls"

text \<open>
  \<^verbatim>\<open>text.split(/\r?\n/)\<close>: a line feed, with the carriage return right before it when
  there is one, ends a piece. The empty string splits into one empty piece.
\<close>

fun splitLines :: "string \<Rightarrow> string list" where
  "splitLines [] = [[]]"
| "splitLines [c] = (if c = LF then [[], []] else [[c]])"
| "splitLines (c # d # cs) =
     (if c = LF then [] # splitLines (d # cs)
      else if c = CR \<and> d = LF then [] # splitLines cs
      else consHead c (splitLines (d # cs)))"

text \<open>\<^verbatim>\<open>s.split(sep)\<close> for a separator of one character.\<close>

fun split :: "char \<Rightarrow> string \<Rightarrow> string list" where
  "split sep [] = [[]]"
| "split sep (c # cs) = (if c = sep then [] # split sep cs else consHead c (split sep cs))"

text \<open>
  White space and line terminators below 256: tab, line feed, vertical tab, form feed,
  carriage return, space and no-break space.
\<close>

definition isWhiteSpace :: "char \<Rightarrow> bool" where
  "isWhiteSpace c \<longleftrightarrow> c \<in> {CHR 0x09, CHR 0x0A, CHR 0x0B, CHR 0x0C, CHR 0x0D, CHR 0x20, CHR 0xA0}"

definition trimStart :: "string \<Rightarrow> string" where
  "trimStart s = dropWhile isWhiteSpace s"

definition trim :: "string \<Rightarrow> string" where
  "trim s = rev (dropWhile isWhiteSpace (rev (dropWhile isWhiteSpace s)))"

definition startsWith :: "string \<Rightarrow> string \<Rightarrow> bool" where
  "startsWith s p \<longleftrightarrow> take (length p) s = p"

subsection \<open>\<^verbatim>\<open>parseInt\<close> and \<^verbatim>\<open>parseFloat\<close>\<close>

text \<open>The value of a digit in radix 10 or 16, when the character is one.\<close>

definition digitValue :: "nat \<Rightarrow> char \<Rightarrow> nat option" where
  "digitValue radix c =
     (let n = of_char c :: nat in
      if 48 \<le> n \<and> n \<le> 57 then Some (n - 48)
      else if radix = 16 \<and> 97 \<le> n \<and> n \<le> 102 then Some (n - 87)
      else if radix = 16 \<and> 65 \<le> n \<and> n \<le> 70 then Some (n - 55)
      else None)"

text \<open>
  Reads the longest run of digits at the front of a string: the value read so far,
  how many digits were read, and what is left.
\<close>

fun digits :: "nat \<Rightarrow> string \<Rightarrow> nat \<times> nat \<Rightarrow> nat \<times> nat \<times> string" where
  "digits radix [] (acc, n) = (acc, n, [])"
| "digits radix (c # cs) (acc, n) =
     (case digitValue radix c of
        None \<Rightarrow> (acc, n, c # cs)
      | Some d \<Rightarrow> digits radix cs (acc * radix + d, Suc n))"

text \<open>An optional sign at the front: whether it is a minus, and what is left.\<close>

fun sign :: "string \<Rightarrow> bool \<times> string" where
  "sign [] = (False, [])"
| "sign (c # cs) =
     (if c = CHR ''-'' then (True, cs) else if c = CHR ''+'' then (False, cs) else (False, c # cs))"

text \<open>
  \<^verbatim>\<open>parseInt(s)\<close> with no radix: leading white space is skipped, a sign is read, a
  prefix \<^verbatim>\<open>0x\<close> or \<^verbatim>\<open>0X\<close> selects radix 16, and the longest run of digits is the value,
  as the double nearest to it; with no digit the result is \<^verbatim>\<open>NaN\<close>. (Where the standard
  lets an implementation approximate a numeral of more than 20 digits, the digits are
  taken as they are.)
\<close>

definition parseInt :: "string \<Rightarrow> index" where
  "parseInt s =
     (let (neg, s1) = sign (trimStart s);
          hex = (startsWith s1 ''0x'' \<or> startsWith s1 ''0X'');
          (v, n, r) = (if hex then digits 16 (drop 2 s1) (0, 0) else digits 10 s1 (0, 0))
      in if n = 0 then NotANumber else toNumber neg v)"

text \<open>\<^verbatim>\<open>parseInt(x) - 1\<close> where \<open>x\<close> may be \<^verbatim>\<open>undefined\<close> (which parses to \<^verbatim>\<open>NaN\<close>).\<close>

definition parseIndex :: "string option \<Rightarrow> index" where
  "parseIndex x = (case x of None \<Rightarrow> NotANumber | Some s \<Rightarrow> decrement (parseInt s))"

text \<open>
  The exponent part of a decimal literal: \<^verbatim>\<open>e\<close> or \<^verbatim>\<open>E\<close>, an optional sign and at least
  one digit; 0 when the string does not start with one.
\<close>

definition exponent :: "string \<Rightarrow> int" where
  "exponent s =
     (case s of
        [] \<Rightarrow> 0
      | c # cs \<Rightarrow>
          if c = CHR ''e'' \<or> c = CHR ''E'' then
            (let (neg, s1) = sign cs; (v, n, r) = digits 10 s1 (0, 0)
             in if n = 0 then 0 else if neg then - int v else int v)
          else 0)"

definition scale10 :: "real \<Rightarrow> int \<Rightarrow> real" where
  "scale10 m e = (if 0 \<le> e then m * 10 ^ nat e else m / 10 ^ nat (- e))"

text \<open>
  \<^verbatim>\<open>parseFloat(x)\<close>: leading white space is skipped and the longest prefix that is a
  decimal literal is the value: a sign, then \<^verbatim>\<open>Infinity\<close> or digits with an optional
  fraction and exponent; at least one digit must stand before the exponent.
  \<^verbatim>\<open>undefined\<close> and a string with no such prefix give \<open>NaN\<close>.
\<close>

definition parseFloat :: "string option \<Rightarrow> num" where
  "parseFloat x =
     (case x of
        None \<Rightarrow> NaN
      | Some s \<Rightarrow>
          let (neg, s1) = sign (trimStart s) in
          if startsWith s1 ''Infinity'' then (if neg then NInf else PInf)
          else
            let (ip, n, r1) = digits 10 s1 (0, 0);
                (fp, k, r2) = (if startsWith r1 ''.'' then digits 10 (drop 1 r1) (ip, 0)
                               else (ip, 0, r1))
            in if n = 0 \<and> k = 0 then NaN
               else
                 let m = scale10 (real fp) (exponent r2 - int k)
                 in Fin (if neg then - m else m))"

subsection \<open>The directives\<close>

record parsedTetFile =
  parsedVertices :: "num list"
  parsedTexCoords :: "num list"
  parsedFaces :: "face list"
  parsedTetsIndices :: "index list"

text \<open>
  One corner token of an \<^verbatim>\<open>f\<close> line: \<^verbatim>\<open>values[1 + i].split('/')\<close> throws a \<^verbatim>\<open>TypeError\<close>
  when the token is absent; each piece is parsed and decremented.
\<close>

definition parseCorner :: "string option \<Rightarrow> error + corner" where
  "parseCorner x =
     (case x of
        None \<Rightarrow> Inl TypeError
      | Some s \<Rightarrow> Inr (map (\<lambda>indexStr. parseIndex (Some indexStr)) (split (CHR ''/'') s)))"

text \<open>The loop \<^verbatim>\<open>for (let i = 0; i < 3; i++)\<close> of the \<^verbatim>\<open>f\<close> case, over the \<open>i\<close> left.\<close>

fun parseFace :: "string list \<Rightarrow> nat list \<Rightarrow> face \<Rightarrow> error + face" where
  "parseFace values [] face = Inr face"
| "parseFace values (i # rest) face =
     (case parseCorner (elemAt values (1 + i)) of
        Inl e \<Rightarrow> Inl e
      | Inr indices \<Rightarrow> parseFace values rest (face @ [indices]))"

text \<open>The \<^verbatim>\<open>switch (values[0])\<close>; a first token that no case names changes nothing.\<close>

definition parseValues :: "string list \<Rightarrow> parsedTetFile \<Rightarrow> error + parsedTetFile" where
  "parseValues values result =
     (if elemAt values 0 = Some ''v'' then
        Inr (result\<lparr>parsedVertices := parsedVertices result @
               [parseFloat (elemAt values 1), parseFloat (elemAt values 2),
                parseFloat (elemAt values 3)]\<rparr>)
      else if elemAt values 0 = Some ''vt'' then
        Inr (result\<lparr>parsedTexCoords := parsedTexCoords result @
               [parseFloat (elemAt values 1), parseFloat (elemAt values 2)]\<rparr>)
      else if elemAt values 0 = Some ''f'' then
        (case parseFace values [0, 1, 2] [] of
           Inl e \<Rightarrow> Inl e
         | Inr face \<Rightarrow> Inr (result\<lparr>parsedFaces := parsedFaces result @ [face]\<rparr>))
      else if elemAt values 0 = Some ''t'' then
        Inr (result\<lparr>parsedTetsIndices := parsedTetsIndices result @
               [parseIndex (elemAt values 1), parseIndex (elemAt values 2),
                parseIndex (elemAt values 3), parseIndex (elemAt values 4)]\<rparr>)
      else Inr result)"

text \<open>The callback of \<^verbatim>\<open>lines.forEach\<close>.\<close>

definition parseLine :: "string \<Rightarrow> parsedTetFile \<Rightarrow> error + parsedTetFile" where
  "parseLine line0 result =
     (let line = trim line0 in
      if startsWith line ''#'' then Inr result
      else
        let values = split (CHR '' '') line in
        if length values < 1 then Inr result
        else parseValues values result)"

text \<open>\<^verbatim>\<open>lines.forEach\<close>: an exception of the callback ends the whole parse.\<close>

fun parseLines :: "string list \<Rightarrow> parsedTetFile \<Rightarrow> error + parsedTetFile" where
  "parseLines [] result = Inr result"
| "parseLines (line # rest) result =
     (case parseLine line result of
        Inl e \<Rightarrow> Inl e
      | Inr result' \<Rightarrow> parseLines rest result')"

text \<open>\<^verbatim>\<open>new ParsedTetFile()\<close>: four empty arrays.\<close>

definition newParsedTetFile :: parsedTetFile where
  "newParsedTetFile =
     \<lparr>parsedVertices = [], parsedTexCoords = [], parsedFaces = [], parsedTetsIndices = []\<rparr>"

definition parseTetFile :: "string \<Rightarrow> error + parsedTetFile" where
  "parseTetFile text = parseLines (splitLines text) newParsedTetFile"

section \<open>The mesh build: \<^verbatim>\<open>loadTet\<close>\<close>

text \<open>
  \<^verbatim>\<open>new Uint32Array(numbers)\<close> converts each number modulo \<open>2\<^sup>3\<^sup>2\<close>; not-a-number
  and the infinities become 0.
\<close>

fun toUint32 :: "index \<Rightarrow> 32 word" where
  "toUint32 (Index i) = word_of_int i"
| "toUint32 x = 0"

text \<open>
  One step of the adjacency build: \<^verbatim>\<open>connectedFaces.get(vertexIndex) || []\<close>, the push
  unless the face is included already, and \<^verbatim>\<open>connectedFaces.set\<close>, which keeps the
  place of a key the map has and appends a new one.
\<close>

definition connectVertex :: "index \<Rightarrow> nat \<Rightarrow> (index \<times> nat list) list \<Rightarrow> (index \<times> nat list) list"
  where
  "connectVertex vertexIndex faceIndex m =
     (let connections = (case map_of m vertexIndex of None \<Rightarrow> [] | Some c \<Rightarrow> c);
          connections' = (if faceIndex \<in> set connections then connections
                          else connections @ [faceIndex])
      in AList.update vertexIndex connections' m)"

text \<open>
  The loop \<^verbatim>\<open>for (faceVertexIndex = 0; faceVertexIndex < 3; faceVertexIndex++)\<close> over the
  corner numbers left; \<^verbatim>\<open>result.faces[faceIndex][faceVertexIndex][0]\<close> throws when the
  face has no such corner.
\<close>

fun connectFace :: "face \<Rightarrow> nat \<Rightarrow> nat list \<Rightarrow> (index \<times> nat list) list \<Rightarrow>
    error + (index \<times> nat list) list" where
  "connectFace face faceIndex [] m = Inr m"
| "connectFace face faceIndex (faceVertexIndex # rest) m =
     (if faceVertexIndex < length face
      then connectFace face faceIndex rest
             (connectVertex (entry (face ! faceVertexIndex) 0) faceIndex m)
      else Inl TypeError)"

fun connectFaces :: "face list \<Rightarrow> nat \<Rightarrow> (index \<times> nat list) list \<Rightarrow>
    error + (index \<times> nat list) list" where
  "connectFaces [] faceIndex m = Inr m"
| "connectFaces (face # rest) faceIndex m =
     (case connectFace face faceIndex [0, 1, 2] m of
        Inl e \<Rightarrow> Inl e
      | Inr m' \<Rightarrow> connectFaces rest (Suc faceIndex) m')"

text \<open>
  The texture coordinates of every corner of every face, two floats per corner, read at
  \<^verbatim>\<open>faceEntry[1]\<close>; the pair is \<^verbatim>\<open>(verticesTexCoords, vertexIndex)\<close>.
\<close>

definition texCorner :: "num list \<Rightarrow> corner \<Rightarrow> num list \<times> nat \<Rightarrow> num list \<times> nat" where
  "texCorner tcs faceEntry st =
     (let t = entry faceEntry 1; vertexIndex = snd st;
          b0 = f32set (fst st) (Some (int vertexIndex * 2 + 0)) (f32get tcs (flat t 2 0));
          b1 = f32set b0 (Some (int vertexIndex * 2 + 1)) (f32get tcs (flat t 2 1))
      in (b1, Suc vertexIndex))"

fun texFace :: "num list \<Rightarrow> face \<Rightarrow> num list \<times> nat \<Rightarrow> num list \<times> nat" where
  "texFace tcs [] st = st"
| "texFace tcs (faceEntry # rest) st = texFace tcs rest (texCorner tcs faceEntry st)"

fun texFaces :: "num list \<Rightarrow> face list \<Rightarrow> num list \<times> nat \<Rightarrow> num list \<times> nat" where
  "texFaces tcs [] st = st"
| "texFaces tcs (face # rest) st = texFaces tcs rest (texFace tcs face st)"

text \<open>
  The fields of the result as \<^verbatim>\<open>loadTet\<close> has assigned them when it calls
  \<^verbatim>\<open>recalcNormals\<close>: the parsed data, the typed arrays created filled with zeros, the
  adjacency \<open>cf\<close> and the texture coordinates of the corners; no geometry yet.
\<close>

definition newTetFile :: "parsedTetFile \<Rightarrow> (index \<times> nat list) list \<Rightarrow> tetFile" where
  "newTetFile tet cf =
     (let count = length (parsedFaces tet);
          vs = parsedVertices tet
      in \<lparr>vertices = vs,
          tetsIndices = map toUint32 (parsedTetsIndices tet),
          normals = replicate (length vs * 3) (Fin 0),
          texCoords = parsedTexCoords tet,
          faceNormals = replicate (count * 3) (Fin 0),
          faceAreas = replicate count (Fin 0),
          faces = parsedFaces tet,
          connectedFaces = cf,
          verticesPositions = replicate (count * 3 * 3) (Fin 0),
          verticesTexCoords =
            fst (texFaces (parsedTexCoords tet) (parsedFaces tet)
                   (replicate (count * 3 * 2) (Fin 0), 0)),
          verticesNormals = replicate (count * 3 * 3) (Fin 0),
          geometry = None,
          triangleCount = count\<rparr>)"

text \<open>
  The body of \<^verbatim>\<open>loadTet\<close> after the parse: the adjacency build, the allocation, the two
  recomputations and, last, the geometry, created with both flags clear.
\<close>

definition newGeometry :: geometry where
  "newGeometry = \<lparr>positionNeedsUpdate = False, normalNeedsUpdate = False\<rparr>"

definition buildTetFile :: "parsedTetFile \<Rightarrow> error + tetFile" where
  "buildTetFile tet =
     (case connectFaces (parsedFaces tet) 0 [] of
        Inl e \<Rightarrow> Inl e
      | Inr cf \<Rightarrow>
          (case recalcNormals (newTetFile tet cf) of
             Inl e \<Rightarrow> Inl e
           | Inr result \<Rightarrow> Inr ((copyDataToBuffer result)\<lparr>geometry := Some newGeometry\<rparr>)))"

text \<open>\<^verbatim>\<open>loadTet\<close>, given the text that \<^verbatim>\<open>fetchText\<close> resolved with.\<close>

definition loadTet :: "string \<Rightarrow> error + tetFile" where
  "loadTet text = (case parseTetFile text of Inl e \<Rightarrow> Inl e | Inr tet \<Rightarrow> buildTetFile tet)"

section \<open>Notation of the properties\<close>

subsection \<open>Tokens and numerals\<close>

text \<open>Tokens written one after the other with a separator between them.\<close>

fun joinWith :: "string \<Rightarrow> string list \<Rightarrow> string" where
  "joinWith sep [] = []"
| "joinWith sep [t] = t"
| "joinWith sep (t # u # ts) = t @ sep @ joinWith sep (u # ts)"

text \<open>The decimal numeral of a natural number, as the file format writes an index.\<close>

definition digitChar :: "nat \<Rightarrow> char" where
  "digitChar d = char_of (48 + d)"

fun decimal :: "nat \<Rightarrow> string" where
  "decimal n = (if n < 10 then [digitChar n] else decimal (n div 10) @ [digitChar (n mod 10)])"

declare decimal.simps [simp del]

definition isDigit :: "char \<Rightarrow> bool" where
  "isDigit c \<longleftrightarrow> 48 \<le> (of_char c :: nat) \<and> (of_char c :: nat) \<le> 57"

subsection \<open>Faces and adjacency\<close>

text \<open>A face as the parser makes it: three corners, none of them empty.\<close>

definition triangle :: "face \<Rightarrow> bool" where
  "triangle face \<longleftrightarrow> length face = 3 \<and> list_all (\<lambda>c. c \<noteq> []) face"

text \<open>
  A vertex index appears in a corner of some face; and an adjacency map whose keys are
  distinct and whose face lists are non-empty and free of duplicates.
\<close>

definition adjacent :: "face list \<Rightarrow> index \<Rightarrow> bool" where
  "adjacent fs v \<longleftrightarrow> list_ex (\<lambda>face. list_ex (\<lambda>c. entry c 0 = v) face) fs"

definition duplicateFree :: "(index \<times> nat list) list \<Rightarrow> bool" where
  "duplicateFree m \<longleftrightarrow> distinct (map fst m) \<and> list_all (\<lambda>e. snd e \<noteq> [] \<and> distinct (snd e)) m"

subsection \<open>Normals and areas as the specification words them\<close>

text \<open>
  Vectors of three numbers, with the arithmetic of the numbers: the difference, the cross
  product, the Euclidean norm, the division by the norm, and the three floats that a
  flat array holds for an index.
\<close>

type_synonym vec = "num \<times> num \<times> num"

definition vec3At :: "num list \<Rightarrow> index \<Rightarrow> vec" where
  "vec3At a i = (f32get a (flat i 3 0), f32get a (flat i 3 1), f32get a (flat i 3 2))"

fun vsub :: "vec \<Rightarrow> vec \<Rightarrow> vec" where
  "vsub (x, y, z) (x', y', z') = (fsub x x', fsub y y', fsub z z')"

fun cross :: "vec \<Rightarrow> vec \<Rightarrow> vec" where
  "cross (xa, ya, za) (xb, yb, zb) =
     (fsub (fmul ya zb) (fmul za yb), fsub (fmul za xb) (fmul xa zb), fsub (fmul xa yb) (fmul ya xb))"

fun norm3 :: "vec \<Rightarrow> num" where
  "norm3 (x, y, z) = hypot x y z"

fun normalize :: "vec \<Rightarrow> vec" where
  "normalize (x, y, z) = (fdiv x (norm3 (x, y, z)), fdiv y (norm3 (x, y, z)), fdiv z (norm3 (x, y, z)))"

text \<open>Heron's formula for the sides \<open>a\<close>, \<open>b\<close>, \<open>c\<close>, with \<open>s = (a + b + c) / 2\<close>.\<close>

definition heron :: "num \<Rightarrow> num \<Rightarrow> num \<Rightarrow> num" where
  "heron a b c =
     (let s = fdiv (fadd (fadd a b) c) (Fin 2)
      in fsqrt (fmul (fmul (fmul s (fsub s a)) (fsub s b)) (fsub s c)))"

text \<open>
  The normal and the area of a face from the positions \<open>P0\<close>, \<open>P1\<close>, \<open>P2\<close> of its first
  three corners: the normalized cross product of \<open>P0 - P1\<close> and \<open>P0 - P2\<close>, and Heron's
  formula over the three edge lengths.
\<close>

definition faceNormal :: "num list \<Rightarrow> face \<Rightarrow> vec" where
  "faceNormal vs face =
     (let P0 = vec3At vs (entry (face ! 0) 0); P1 = vec3At vs (entry (face ! 1) 0);
          P2 = vec3At vs (entry (face ! 2) 0)
      in normalize (cross (vsub P0 P1) (vsub P0 P2)))"

definition faceArea :: "num list \<Rightarrow> face \<Rightarrow> num" where
  "faceArea vs face =
     (let P0 = vec3At vs (entry (face ! 0) 0); P1 = vec3At vs (entry (face ! 1) 0);
          P2 = vec3At vs (entry (face ! 2) 0)
      in heron (norm3 (vsub P0 P1)) (norm3 (vsub P0 P2)) (norm3 (vsub P1 P2)))"

fun vadd :: "vec \<Rightarrow> vec \<Rightarrow> vec" where
  "vadd (x, y, z) (x', y', z') = (fadd x x', fadd y y', fadd z z')"

fun vscale :: "num \<Rightarrow> vec \<Rightarrow> vec" where
  "vscale a (x, y, z) = (fmul a x, fmul a y, fmul a z)"

text \<open>
  The sum of the normals of the faces connected to a vertex, each multiplied by the area
  of its face, and that sum divided by its norm.
\<close>

fun weightedSum :: "num list \<Rightarrow> num list \<Rightarrow> nat list \<Rightarrow> vec" where
  "weightedSum fns fas [] = (Fin 0, Fin 0, Fin 0)"
| "weightedSum fns fas (f # rest) =
     vadd (vscale (f32get fas (Some (int f))) (vec3At fns (Index (int f)))) (weightedSum fns fas rest)"

definition areaWeightedNormal :: "num list \<Rightarrow> num list \<Rightarrow> nat list \<Rightarrow> vec" where
  "areaWeightedNormal fns fas connections = normalize (weightedSum fns fas connections)"

subsection \<open>Writes to a typed array\<close>

text \<open>An index is valid for a typed array when it is one of its element indices.\<close>

definition valid :: "num list \<Rightarrow> int option \<Rightarrow> bool" where
  "valid a k = (case k of None \<Rightarrow> False | Some i \<Rightarrow> 0 \<le> i \<and> nat i < length a)"

text \<open>A list of writes, done in order; and the value that the last write to an index left.\<close>

definition writeAll :: "(int option \<times> num) list \<Rightarrow> num list \<Rightarrow> num list" where
  "writeAll ws a = foldl (\<lambda>b w. f32set b (fst w) (snd w)) a ws"

fun lastWrite :: "(int option \<times> num) list \<Rightarrow> int option \<Rightarrow> num option" where
  "lastWrite [] k = None"
| "lastWrite (w # ws) k =
     (case lastWrite ws k of Some v \<Rightarrow> Some v | None \<Rightarrow> if fst w = k then Some (snd w) else None)"

fun normalWrites :: "num list \<Rightarrow> face list \<Rightarrow> nat \<Rightarrow> (int option \<times> num) list" where
  "normalWrites vs [] i = []"
| "normalWrites vs (face # rest) i =
     [(Some (int i * 3 + 0), fst (faceNormal vs face)),
      (Some (int i * 3 + 1), fst (snd (faceNormal vs face))),
      (Some (int i * 3 + 2), snd (snd (faceNormal vs face)))] @ normalWrites vs rest (Suc i)"

fun areaWrites :: "num list \<Rightarrow> face list \<Rightarrow> nat \<Rightarrow> (int option \<times> num) list" where
  "areaWrites vs [] i = []"
| "areaWrites vs (face # rest) i = (Some (int i), faceArea vs face) # areaWrites vs rest (Suc i)"

text \<open>What the second loop computes for the faces connected to one vertex.\<close>

definition vertexNormal :: "num list \<Rightarrow> num list \<Rightarrow> nat list \<Rightarrow> vec" where
  "vertexNormal fns fas connections =
     (case sumConnections fns fas connections (Fin 0, Fin 0, Fin 0, Fin 0) of
        (vnx, vny, vnz, areaSum) \<Rightarrow>
          normalize (fdiv vnx areaSum, fdiv vny areaSum, fdiv vnz areaSum))"

definition vertexWrites :: "num list \<Rightarrow> num list \<Rightarrow> index \<times> nat list \<Rightarrow> (int option \<times> num) list"
  where
  "vertexWrites fns fas e =
     [(flat (fst e) 3 0, fst (vertexNormal fns fas (snd e))),
      (flat (fst e) 3 1, fst (snd (vertexNormal fns fas (snd e)))),
      (flat (fst e) 3 2, snd (snd (vertexNormal fns fas (snd e))))]"

fun cornerWrites :: "num list \<Rightarrow> corner list \<Rightarrow> nat \<Rightarrow> (int option \<times> num) list" where
  "cornerWrites src [] k = []"
| "cornerWrites src (c # cs) k =
     [(Some (int k * 3 + 0), f32get src (flat (entry c 0) 3 0)),
      (Some (int k * 3 + 1), f32get src (flat (entry c 0) 3 1)),
      (Some (int k * 3 + 2), f32get src (flat (entry c 0) 3 2))] @ cornerWrites src cs (Suc k)"

section \<open>Files and meshes to try the properties on\<close>

text \<open>The triangle with sides 3, 4 and 5 in the plane \<open>z = 0\<close>.\<close>

definition triangleText :: string where
  "triangleText = ''v 0 0 0'' @ [LF] @ ''v 3 0 0'' @ [LF] @ ''v 0 4 0'' @ [LF] @ ''vt 0.5 1'' @ [LF]
     @ ''f 1/1 2/1 3/1'' @ [LF] @ ''t 1 2 3 1''"

definition triangleParsed :: parsedTetFile where
  "triangleParsed =
     \<lparr>parsedVertices = [Fin 0, Fin 0, Fin 0, Fin 3, Fin 0, Fin 0, Fin 0, Fin 4, Fin 0],
      parsedTexCoords = [Fin (1 / 2), Fin 1],
      parsedFaces = [[[Index 0, Index 0], [Index 1, Index 0], [Index 2, Index 0]]],
      parsedTetsIndices = [Index 0, Index 1, Index 2, Index 0]\<rparr>"

definition triangleMesh :: "geometry option \<Rightarrow> tetFile" where
  "triangleMesh g =
     \<lparr>vertices = [Fin 0, Fin 0, Fin 0, Fin 3, Fin 0, Fin 0, Fin 0, Fin 4, Fin 0],
      tetsIndices = [0, 1, 2, 0],
      normals = [Fin 0, Fin 0, Fin 1, Fin 0, Fin 0, Fin 1, Fin 0, Fin 0, Fin 1] @ replicate 18 (Fin 0),
      texCoords = [Fin (1 / 2), Fin 1],
      faceNormals = [Fin 0, Fin 0, Fin 1],
      faceAreas = [Fin 6],
      faces = [[[Index 0, Index 0], [Index 1, Index 0], [Index 2, Index 0]]],
      connectedFaces = [(Index 0, [0]), (Index 1, [0]), (Index 2, [0])],
      verticesPositions = [Fin 0, Fin 0, Fin 0, Fin 3, Fin 0, Fin 0, Fin 0, Fin 4, Fin 0],
      verticesTexCoords = [Fin (1 / 2), Fin 1, Fin (1 / 2), Fin 1, Fin (1 / 2), Fin 1],
      verticesNormals = [Fin 0, Fin 0, Fin 1, Fin 0, Fin 0, Fin 1, Fin 0, Fin 0, Fin 1],
      geometry = g,
      triangleCount = 1\<rparr>"

text \<open>Two faces that each name a vertex in two of their corners.\<close>

definition foldedText :: string where
  "foldedText = ''v 0 0 0'' @ [LF] @ ''v 1 0 0'' @ [LF] @ ''f 1 1 2'' @ [LF] @ ''f 2 1 2''"

text \<open>
  Two faces around the vertex at the origin: the triangle with sides 3, 4 and 5 in the
  plane \<open>z = 0\<close>, of area 6 and normal \<open>(0, 0, 1)\<close>, and the triangle with sides 6, 8 and
  10 in the plane \<open>x = 0\<close>, of area 24 and normal \<open>(1, 0, 0)\<close>.
\<close>

definition fanText :: string where
  "fanText = ''v 0 0 0'' @ [LF] @ ''v 3 0 0'' @ [LF] @ ''v 0 4 0'' @ [LF] @ ''v 0 6 0'' @ [LF]
     @ ''v 0 0 8'' @ [LF] @ ''vt 0 0'' @ [LF] @ ''f 1/1 2/1 3/1'' @ [LF] @ ''f 1/1 4/1 5/1''"

definition fanParsed :: parsedTetFile where
  "fanParsed =
     \<lparr>parsedVertices = [Fin 0, Fin 0, Fin 0, Fin 3, Fin 0, Fin 0, Fin 0, Fin 4, Fin 0,
                         Fin 0, Fin 6, Fin 0, Fin 0, Fin 0, Fin 8],
      parsedTexCoords = [Fin 0, Fin 0],
      parsedFaces = [[[Index 0, Index 0], [Index 1, Index 0], [Index 2, Index 0]],
                     [[Index 0, Index 0], [Index 3, Index 0], [Index 4, Index 0]]],
      parsedTetsIndices = []\<rparr>"

text \<open>The mesh that the file loads into.\<close>

definition fanMesh :: tetFile where
  "fanMesh =
     \<lparr>vertices = [Fin 0, Fin 0, Fin 0, Fin 3, Fin 0, Fin 0, Fin 0, Fin 4, Fin 0,
                  Fin 0, Fin 6, Fin 0, Fin 0, Fin 0, Fin 8],
      tetsIndices = [],
      normals = [Fin (sqrt 2 / 2), Fin 0, Fin (sqrt 2 / 2), Fin 0, Fin 0, Fin 1, Fin 0, Fin 0, Fin 1,
                 Fin 1, Fin 0, Fin 0, Fin 1, Fin 0, Fin 0] @ replicate 30 (Fin 0),
      texCoords = [Fin 0, Fin 0],
      faceNormals = [Fin 0, Fin 0, Fin 1, Fin 1, Fin 0, Fin 0],
      faceAreas = [Fin 6, Fin 24],
      faces = [[[Index 0, Index 0], [Index 1, Index 0], [Index 2, Index 0]],
               [[Index 0, Index 0], [Index 3, Index 0], [Index 4, Index 0]]],
      connectedFaces = [(Index 0, [0, 1]), (Index 1, [0]), (Index 2, [0]), (Index 3, [1]), (Index 4, [1])],
      verticesPositions = [Fin 0, Fin 0, Fin 0, Fin 3, Fin 0, Fin 0, Fin 0, Fin 4, Fin 0,
                           Fin 0, Fin 0, Fin 0, Fin 0, Fin 6, Fin 0, Fin 0, Fin 0, Fin 8],
      verticesTexCoords = replicate 12 (Fin 0),
      verticesNormals = [Fin (sqrt 2 / 2), Fin 0, Fin (sqrt 2 / 2), Fin 0, Fin 0, Fin 1, Fin 0, Fin 0, Fin 1,
                         Fin (sqrt 2 / 2), Fin 0, Fin (sqrt 2 / 2), Fin 1, Fin 0, Fin 0, Fin 1, Fin 0, Fin 0],
      geometry = Some newGeometry,
      triangleCount = 2\<rparr>"

section \<open>Typed arrays keep their length\<close>

lemma length_f32set [simp]: "length (f32set a j v) = length a"
  by (simp add: f32set_def split: option.splits)

section \<open>Properties of the parser\<close>

lemma split_not_Nil [simp]: "split sep s \<noteq> []"
  by (induction s) (auto, metis consHead.elims list.discI)

lemma split_no_sep: "sep \<notin> set s \<Longrightarrow> split sep s = [s]"
  by (induction s) auto

lemma split_append_sep: "sep \<notin> set s \<Longrightarrow> split sep (s @ sep # r) = s # split sep r"
  by (induction s) auto

lemma split_joinWith:
  "tokens \<noteq> [] \<Longrightarrow> list_all (\<lambda>t. sep \<notin> set t) tokens \<Longrightarrow> split sep (joinWith [sep] tokens) = tokens"
  by (induction "[sep]" tokens rule: joinWith.induct) (auto simp: split_no_sep split_append_sep)

lemma dropWhile_hd: "s \<noteq> [] \<Longrightarrow> \<not> P (hd s) \<Longrightarrow> dropWhile P s = s"
  by (cases s) auto

lemma trim_id: "s \<noteq> [] \<Longrightarrow> \<not> isWhiteSpace (hd s) \<Longrightarrow> \<not> isWhiteSpace (last s) \<Longrightarrow> trim s = s"
  by (simp add: trim_def dropWhile_hd hd_rev)

lemma isDigit_digitChar: "d < 10 \<Longrightarrow> isDigit (digitChar d)"
  by (simp add: isDigit_def digitChar_def)

lemma digitValue_digitChar: "d < 10 \<Longrightarrow> digitValue 10 (digitChar d) = Some d"
  by (simp add: digitValue_def digitChar_def)

lemma decimal_not_Nil [simp]: "decimal n \<noteq> []"
  by (subst decimal.simps) simp

lemma decimal_digits: "list_all isDigit (decimal n)"
  by (induction n rule: decimal.induct) (subst decimal.simps, simp add: isDigit_digitChar)

lemma isDigit_facts:
  "isDigit c \<Longrightarrow> \<not> isWhiteSpace c \<and> c \<noteq> CHR ''-'' \<and> c \<noteq> CHR ''+'' \<and> c \<noteq> CHR ''/''
     \<and> c \<noteq> CHR '' '' \<and> c \<noteq> CHR ''x'' \<and> c \<noteq> CHR ''X'' \<and> c \<noteq> CHR ''#''"
  by (auto simp: isDigit_def isWhiteSpace_def)

lemma digits_decimal:
  "digits 10 (decimal n @ r) (acc, k) =
     digits 10 r (acc * 10 ^ length (decimal n) + n, k + length (decimal n))"
proof (induction n arbitrary: acc k r rule: decimal.induct)
  case (1 n)
  show ?case
  proof (cases "n < 10")
    case True
    then show ?thesis
      by (subst (1 2 3) decimal.simps) (simp add: digitValue_digitChar)
  next
    case False
    have step: "digits 10 (decimal (n div 10) @ digitChar (n mod 10) # r) (acc, k) =
        digits 10 (digitChar (n mod 10) # r)
          (acc * 10 ^ length (decimal (n div 10)) + n div 10, k + length (decimal (n div 10)))"
      using "1.IH" [OF False] by simp
    have "decimal n = decimal (n div 10) @ [digitChar (n mod 10)]"
      using False by (subst decimal.simps) simp
    then show ?thesis
      using step by (simp add: digitValue_digitChar algebra_simps)
  qed
qed

lemma parseInt_decimal_number: "parseInt (decimal n) = toNumber False n"
proof -
  obtain c cs where d: "decimal n = c # cs"
    by (cases "decimal n") auto
  have all: "list_all isDigit (c # cs)"
    using decimal_digits [of n] d by simp
  then have c: "isDigit c" by simp
  have trimmed: "trimStart (decimal n) = decimal n"
    using c d isDigit_facts [of c] by (simp add: trimStart_def)
  have sg: "sign (decimal n) = (False, decimal n)"
    using c d isDigit_facts [of c] by simp
  have nohex: "\<not> startsWith (decimal n) ''0x''" "\<not> startsWith (decimal n) ''0X''"
    using all d isDigit_facts by (cases cs; auto simp: startsWith_def)+
  have "digits 10 (decimal n @ []) (0, 0) = (n, length (decimal n), [])"
    by (simp only: digits_decimal) simp
  then show ?thesis
    using trimmed sg nohex by (simp add: parseInt_def)
qed

lemma bitLength_le: "bitLength n \<le> k \<longleftrightarrow> n < 2 ^ k"
proof (induction k arbitrary: n)
  case 0
  then show ?case
    by (subst bitLength.simps) simp
next
  case (Suc k)
  have "n div 2 < 2 ^ k \<longleftrightarrow> n < 2 ^ Suc k"
    by (simp add: less_mult_imp_div_less div_less_iff_less_mult mult.commute)
  then show ?case
    using Suc [of "n div 2"] by (subst bitLength.simps) auto
qed

lemma roundToDouble_exact:
  assumes "n \<le> 2 ^ 53"
  shows "roundToDouble n = Some n"
proof (cases "n < 2 ^ 53")
  case True
  then show ?thesis
    by (simp add: roundToDouble_def bitLength_le)
next
  case False
  then have n: "n = 9007199254740992"
    using assms by simp
  have "bitLength 9007199254740992 = 54"
    by (simp add: bitLength.simps)
  then show ?thesis
    by (simp add: n roundToDouble_def Let_def)
qed

lemma toNumber_exact:
  "n \<le> 2 ^ 53 \<Longrightarrow> toNumber neg n = Index (if neg then - int n else int n)"
  by (simp add: toNumber_def roundToDouble_exact)

lemma parseInt_decimal: "n \<le> 2 ^ 53 \<Longrightarrow> parseInt (decimal n) = Index (int n)"
  by (simp add: parseInt_decimal_number toNumber_exact)

lemma parseIndex_decimal:
  assumes "n \<le> 2 ^ 53"
  shows "parseIndex (Some (decimal n)) = Index (int n - 1)"
proof (cases "n = 0")
  case True
  have "toNumber True (Suc 0) = Index (- 1)"
    using toNumber_exact [of 1 True] by simp
  then show ?thesis
    using True by (simp add: parseIndex_def parseInt_decimal)
next
  case False
  then have "nat \<bar>int n - 1\<bar> = n - 1" "\<not> int n - 1 < 0" "n - 1 \<le> 2 ^ 53"
    using assms by auto
  then show ?thesis
    using assms False by (simp add: parseIndex_def parseInt_decimal toNumber_exact of_nat_diff)
qed

lemma decimal_no_char: "\<not> isDigit c \<Longrightarrow> c \<notin> set (decimal n)"
  using decimal_digits [of n] by (auto simp: list_all_iff)

lemma parseCorner_decimal_number:
  "parseCorner (Some (decimal m @ ''/'' @ decimal n)) =
     Inr [decrement (toNumber False m), decrement (toNumber False n)]"
  by (simp add: parseCorner_def split_append_sep split_no_sep decimal_no_char isDigit_def
      parseIndex_def parseInt_decimal_number)

lemma parseCorner_decimal:
  assumes "m \<le> 2 ^ 53" "n \<le> 2 ^ 53"
  shows "parseCorner (Some (decimal m @ ''/'' @ decimal n)) = Inr [Index (int m - 1), Index (int n - 1)]"
  using assms
  by (simp add: parseCorner_def split_append_sep split_no_sep decimal_no_char isDigit_def parseIndex_decimal)

lemma digitChars:
  "digitChar 0 = CHR ''0''" "digitChar (Suc 0) = CHR ''1''" "digitChar 1 = CHR ''1''"
  "digitChar 2 = CHR ''2''" "digitChar 3 = CHR ''3''" "digitChar 4 = CHR ''4''"
  "digitChar 5 = CHR ''5''" "digitChar 6 = CHR ''6''" "digitChar 7 = CHR ''7''"
  "digitChar 8 = CHR ''8''" "digitChar 9 = CHR ''9''"
  by code_simp+

lemma decimal_examples:
  "decimal 1 = ''1''" "decimal (Suc 0) = ''1''" "decimal 2 = ''2''" "decimal 3 = ''3''"
  "decimal 5 = ''5''"
  "decimal 9007199254740992 = ''9007199254740992''"
  "decimal 9007199254740993 = ''9007199254740993''"
  by (simp_all add: decimal.simps digitChars)

lemma roundToDouble_example: "roundToDouble 9007199254740993 = Some 9007199254740992"
proof -
  have "bitLength 9007199254740993 = 54"
    by (simp add: bitLength.simps)
  then show ?thesis
    by (simp add: roundToDouble_def Let_def)
qed

lemma hd_joinWith: "tokens \<noteq> [] \<Longrightarrow> hd tokens \<noteq> [] \<Longrightarrow> hd (joinWith sep tokens) = hd (hd tokens)"
  by (induction sep tokens rule: joinWith.induct) auto

lemma joinWith_not_Nil: "tokens \<noteq> [] \<Longrightarrow> hd tokens \<noteq> [] \<Longrightarrow> joinWith sep tokens \<noteq> []"
  by (induction sep tokens rule: joinWith.induct) auto

lemma last_joinWith:
  "tokens \<noteq> [] \<Longrightarrow> list_all (\<lambda>t. t \<noteq> []) tokens \<Longrightarrow> last (joinWith sep tokens) = last (last tokens)"
  by (induction sep tokens rule: joinWith.induct) (auto simp: joinWith_not_Nil)

lemma parseLine_joinWith:
  assumes ne: "tokens \<noteq> []"
    and tok: "list_all (\<lambda>t. t \<noteq> [] \<and> list_all (\<lambda>c. \<not> isWhiteSpace c) t) tokens"
    and hash: "hd (hd tokens) \<noteq> CHR ''#''"
  shows "parseLine (joinWith '' '' tokens) r = parseValues tokens r"
proof -
  let ?line = "joinWith '' '' tokens"
  have nonempty: "list_all (\<lambda>t. t \<noteq> []) tokens"
    using tok by (simp add: list_all_iff)
  have hdne: "hd tokens \<noteq> []"
    using ne nonempty by (cases tokens) auto
  have lastne: "last tokens \<noteq> []"
    using ne nonempty by (auto simp: list_all_iff)
  have nospace: "list_all (\<lambda>t. CHR '' '' \<notin> set t) tokens"
    using tok by (auto simp: list_all_iff isWhiteSpace_def)
  have "hd tokens \<in> set tokens" "last tokens \<in> set tokens"
    using ne by auto
  then have "\<not> isWhiteSpace (hd (hd tokens))" "\<not> isWhiteSpace (last (last tokens))"
    using tok hdne lastne by (auto simp: list_all_iff)
  then have "trim ?line = ?line"
    using ne hdne nonempty by (simp add: trim_id hd_joinWith last_joinWith joinWith_not_Nil)
  moreover have "\<not> startsWith ?line ''#''"
    using hash hd_joinWith [OF ne hdne, of "'' ''"] joinWith_not_Nil [OF ne hdne, of "'' ''"]
    by (cases ?line) (auto simp: startsWith_def)
  moreover have "split (CHR '' '') ?line = tokens"
    using split_joinWith [OF ne nospace] .
  ultimately show ?thesis
    using ne by (simp add: parseLine_def)
qed

lemma whitespace_free_decimal: "list_all (\<lambda>c. \<not> isWhiteSpace c) (decimal n)"
  using decimal_digits [of n] isDigit_facts by (auto simp: list_all_iff)

lemma parseLine_t:
  assumes "i1 \<le> 2 ^ 53" "i2 \<le> 2 ^ 53" "i3 \<le> 2 ^ 53" "i4 \<le> 2 ^ 53"
  shows "parseLine (''t '' @ decimal i1 @ '' '' @ decimal i2 @ '' '' @ decimal i3 @ '' '' @ decimal i4) r =
     Inr (r\<lparr>parsedTetsIndices := parsedTetsIndices r @
            [Index (int i1 - 1), Index (int i2 - 1), Index (int i3 - 1), Index (int i4 - 1)]\<rparr>)"
proof -
  have "parseLine (joinWith '' '' [''t'', decimal i1, decimal i2, decimal i3, decimal i4]) r =
      parseValues [''t'', decimal i1, decimal i2, decimal i3, decimal i4] r"
    by (rule parseLine_joinWith) (simp_all add: whitespace_free_decimal, simp_all add: isWhiteSpace_def)
  then show ?thesis
    using assms by (simp add: parseValues_def elemAt_def parseIndex_decimal)
qed

lemma whitespace_free_corner: "list_all (\<lambda>c. \<not> isWhiteSpace c) (decimal m @ ''/'' @ decimal n)"
  using whitespace_free_decimal by (simp add: isWhiteSpace_def)

lemma parseLine_f:
  assumes "a \<le> 2 ^ 53" "ta \<le> 2 ^ 53" "b \<le> 2 ^ 53" "tb \<le> 2 ^ 53" "c \<le> 2 ^ 53" "tc \<le> 2 ^ 53"
  shows "parseLine (''f '' @ decimal a @ ''/'' @ decimal ta @ '' '' @ decimal b @ ''/'' @ decimal tb
                @ '' '' @ decimal c @ ''/'' @ decimal tc) r =
     Inr (r\<lparr>parsedFaces := parsedFaces r @
            [[[Index (int a - 1), Index (int ta - 1)], [Index (int b - 1), Index (int tb - 1)],
              [Index (int c - 1), Index (int tc - 1)]]]\<rparr>)"
proof -
  let ?toks = "[''f'', decimal a @ ''/'' @ decimal ta, decimal b @ ''/'' @ decimal tb,
                decimal c @ ''/'' @ decimal tc]"
  have "parseLine (joinWith '' '' ?toks) r = parseValues ?toks r"
    by (rule parseLine_joinWith) (simp_all add: whitespace_free_decimal, simp_all add: isWhiteSpace_def)
  moreover have "\<And>m n. m \<le> 2 ^ 53 \<Longrightarrow> n \<le> 2 ^ 53 \<Longrightarrow>
      parseCorner (Some (decimal m @ CHR ''/'' # decimal n)) = Inr [Index (int m - 1), Index (int n - 1)]"
    using parseCorner_decimal by simp
  ultimately show ?thesis
    using assms by (simp add: parseValues_def elemAt_def)
qed

text \<open>
  Claim C5, as amended. Indices are written from 1 and stored from 0, as long as the
  numerals are at most \<open>2\<^sup>5\<^sup>3\<close>, the range in which a double holds every integer. A
  corner token \<open>m/n\<close> parses to the vertex index \<open>m - 1\<close> and the texture index \<open>n - 1\<close>;
  an \<^verbatim>\<open>f\<close> line of three such tokens appends the face of the three decremented pairs; a
  \<^verbatim>\<open>t\<close> line of four numerals appends the four numbers, each decremented by one. The
  numerals are the decimal numerals of natural numbers, separated by single spaces.
\<close>

theorem index_conversion:
  assumes "list_all (\<lambda>k. k \<le> 2 ^ 53) [m, n, a, ta, b, tb, c, tc, i1, i2, i3, i4]"
  shows "parseCorner (Some (decimal m @ ''/'' @ decimal n)) = Inr [Index (int m - 1), Index (int n - 1)]
   \<and> parseLine (''f '' @ decimal a @ ''/'' @ decimal ta @ '' '' @ decimal b @ ''/'' @ decimal tb
                  @ '' '' @ decimal c @ ''/'' @ decimal tc) r =
       Inr (r\<lparr>parsedFaces := parsedFaces r @
              [[[Index (int a - 1), Index (int ta - 1)], [Index (int b - 1), Index (int tb - 1)],
                [Index (int c - 1), Index (int tc - 1)]]]\<rparr>)
   \<and> parseLine (''t '' @ decimal i1 @ '' '' @ decimal i2 @ '' '' @ decimal i3 @ '' '' @ decimal i4) r =
       Inr (r\<lparr>parsedTetsIndices := parsedTetsIndices r @
              [Index (int i1 - 1), Index (int i2 - 1), Index (int i3 - 1), Index (int i4 - 1)]\<rparr>)"
proof -
  from assms have "m \<le> 2 ^ 53" "n \<le> 2 ^ 53" "a \<le> 2 ^ 53" "ta \<le> 2 ^ 53" "b \<le> 2 ^ 53"
    "tb \<le> 2 ^ 53" "c \<le> 2 ^ 53" "tc \<le> 2 ^ 53" "i1 \<le> 2 ^ 53" "i2 \<le> 2 ^ 53" "i3 \<le> 2 ^ 53"
    "i4 \<le> 2 ^ 53"
    by simp_all
  then show ?thesis
    by (simp only: parseCorner_decimal parseLine_f parseLine_t simp_thms)
qed

text \<open>
  The token \<^verbatim>\<open>5/2\<close>, the face line \<^verbatim>\<open>f 1/1 2/2 3/3\<close> and the line \<^verbatim>\<open>t 1 2 3 1\<close>, and the
  largest numeral in range, \<open>2\<^sup>5\<^sup>3\<close>.
\<close>

theorem index_conversion_witness:
  "parseCorner (Some ''5/2'') = Inr [Index 4, Index 1]
   \<and> parseLine ''f 1/1 2/2 3/3'' newParsedTetFile =
       Inr (newParsedTetFile\<lparr>parsedFaces :=
              [[[Index 0, Index 0], [Index 1, Index 1], [Index 2, Index 2]]]\<rparr>)
   \<and> parseLine ''t 1 2 3 1'' newParsedTetFile =
       Inr (newParsedTetFile\<lparr>parsedTetsIndices := [Index 0, Index 1, Index 2, Index 0]\<rparr>)
   \<and> parseCorner (Some ''9007199254740992/1'') = Inr [Index 9007199254740991, Index 0]"
proof -
  note d = decimal_examples
  have "list_all (\<lambda>k. k \<le> 2 ^ 53) [5, 2, 1, 1, 2, 2, 3, 3, 1, 2, 3, 1 :: nat]"
    "list_all (\<lambda>k. k \<le> 2 ^ 53) [9007199254740992, 1, 1, 1, 2, 2, 3, 3, 1, 2, 3, 1 :: nat]"
    by simp_all
  from index_conversion [OF this(1), of newParsedTetFile]
    index_conversion [OF this(2), of newParsedTetFile]
  show ?thesis
    by (simp add: d newParsedTetFile_def)
qed

text \<open>
  Claim C5 as stated fails above \<open>2\<^sup>5\<^sup>3\<close>: \<^verbatim>\<open>parseInt\<close> gives the double nearest to the
  numeral, so the token \<^verbatim>\<open>9007199254740993/1\<close> parses to the vertex index
  9007199254740991, which is the numeral less two.
\<close>

theorem index_conversion_counterexample:
  "parseCorner (Some ''9007199254740993/1'') = Inr [Index 9007199254740991, Index 0]
   \<and> parseCorner (Some ''9007199254740993/1'') \<noteq> Inr [Index (9007199254740993 - 1), Index (1 - 1)]"
proof -
  have "decrement (toNumber False 9007199254740993) = Index 9007199254740991"
    using toNumber_exact [of 9007199254740991 False]
    by (simp add: toNumber_def roundToDouble_example)
  moreover have "decrement (toNumber False 1) = Index 0"
    using toNumber_exact [of 0 False] by (simp add: toNumber_exact)
  ultimately have "parseCorner (Some (decimal 9007199254740993 @ ''/'' @ decimal 1)) =
      Inr [Index 9007199254740991, Index 0]"
    by (simp only: parseCorner_decimal_number)
  then have "parseCorner (Some ''9007199254740993/1'') = Inr [Index 9007199254740991, Index 0]"
    by (simp add: decimal_examples)
  then show ?thesis
    by simp
qed

text \<open>The examples of the format: \<^verbatim>\<open>5/2\<close> gives 4 and 1, \<^verbatim>\<open>t 1 2 3 1\<close> gives 0, 1, 2, 0.\<close>

lemma index_conversion_examples:
  "parseCorner (Some ''5/2'') = Inr [Index 4, Index 1]"
  "map_sum id parsedTetsIndices (parseTetFile ''t 1 2 3 1'') = Inr [Index 0, Index 1, Index 2, Index 0]"
  by code_simp+

lemma split_hd: "split sep s = v # vs \<Longrightarrow> v = takeWhile (\<lambda>c. c \<noteq> sep) s"
proof (induction s arbitrary: v vs)
  case Nil
  then show ?case by simp
next
  case (Cons c s)
  then show ?case
    by (cases "split sep s") (auto split: if_splits)
qed

lemma parseValues_short_face:
  assumes "elemAt values 0 = Some ''f''" "length values < 4"
  shows "parseValues values r = Inl TypeError"
proof -
  have "parseFace values [0, 1, 2] [] = Inl TypeError"
    using assms(2) by (auto simp: elemAt_def parseCorner_def split: sum.splits)
  then show ?thesis
    using assms(1) by (simp add: parseValues_def)
qed

lemma parseLine_short_face:
  assumes "elemAt (split (CHR '' '') (trim line)) 0 = Some ''f''"
    and "length (split (CHR '' '') (trim line)) < 4"
  shows "parseLine line r = Inl TypeError"
proof -
  obtain v vs where sp: "split (CHR '' '') (trim line) = v # vs"
    by (cases "split (CHR '' '') (trim line)") auto
  then have "v = ''f''"
    using assms(1) by (simp add: elemAt_def)
  then have "takeWhile (\<lambda>c. c \<noteq> CHR '' '') (trim line) = ''f''"
    using split_hd [OF sp] by simp
  then have "\<not> startsWith (trim line) ''#''"
    by (cases "trim line") (auto simp: startsWith_def split: if_splits)
  then show ?thesis
    using assms sp by (simp add: parseLine_def parseValues_short_face)
qed

lemma parseLines_fails:
  assumes "line \<in> set ls" "\<And>r. parseLine line r = Inl TypeError"
  shows "parseLines ls r = Inl TypeError"
  using assms(1)
proof (induction ls arbitrary: r)
  case Nil
  then show ?case by simp
next
  case (Cons l ls)
  show ?case
  proof (cases "parseLine l r")
    case (Inl e)
    then show ?thesis by (cases e) simp
  next
    case (Inr r')
    then have "l \<noteq> line" using assms(2) by auto
    then show ?thesis using Cons Inr by simp
  qed
qed

text \<open>
  A face line of four pieces or more is parsed, whatever the pieces are: the corners are
  the three pieces after the \<^verbatim>\<open>f\<close>, an empty piece giving the corner of the one index
  \<open>NaN\<close>.
\<close>

lemma parseFace_long:
  "list_all (\<lambda>i. 1 + i < length values) is \<Longrightarrow> \<exists>face'. parseFace values is face = Inr face'"
  by (induction "is" arbitrary: face) (auto simp: parseCorner_def elemAt_def)

lemma parseLine_long_face:
  assumes "elemAt (split (CHR '' '') (trim line)) 0 = Some ''f''"
    and "4 \<le> length (split (CHR '' '') (trim line))"
  shows "\<exists>face. parseLine line r = Inr (r\<lparr>parsedFaces := parsedFaces r @ [face]\<rparr>)"
proof -
  obtain v vs where sp: "split (CHR '' '') (trim line) = v # vs"
    by (cases "split (CHR '' '') (trim line)") auto
  then have "v = ''f''"
    using assms(1) by (simp add: elemAt_def)
  then have "takeWhile (\<lambda>c. c \<noteq> CHR '' '') (trim line) = ''f''"
    using split_hd [OF sp] by simp
  then have hash: "\<not> startsWith (trim line) ''#''"
    by (cases "trim line") (auto simp: startsWith_def split: if_splits)
  have "list_all (\<lambda>i. 1 + i < length (split (CHR '' '') (trim line))) [0, 1, 2]"
    using assms(2) by simp
  from parseFace_long [OF this] obtain face where
    "parseFace (split (CHR '' '') (trim line)) [0, 1, 2] [] = Inr face"
    by blast
  then have "parseLine line r = Inr (r\<lparr>parsedFaces := parsedFaces r @ [face]\<rparr>)"
    using assms(1) hash by (simp add: parseLine_def parseValues_def del: parseFace.simps)
  then show ?thesis
    by blast
qed

text \<open>
  Claim C10, as amended. The parser is not total over face lines. The pieces of a line
  are what the split of the trimmed line at every single space character gives, the empty
  pieces between two adjacent spaces included. When some line of the text has \<^verbatim>\<open>f\<close> as its
  first piece and fewer than three pieces after it, \<^verbatim>\<open>parseTetFile\<close> ends with a
  \<^verbatim>\<open>TypeError\<close> (the split of an absent piece): the line is not skipped and no partial
  result is returned.
\<close>

theorem short_face_line_fails:
  assumes "line \<in> set (splitLines text)"
    and "elemAt (split (CHR '' '') (trim line)) 0 = Some ''f''"
    and "length (split (CHR '' '') (trim line)) < 4"
  shows "parseTetFile text = Inl TypeError"
  unfolding parseTetFile_def
  using assms(1) parseLine_short_face [OF assms(2,3)] by (rule parseLines_fails)

text \<open>A text whose second line is a face with two corners only.\<close>

theorem short_face_line_fails_witness:
  "parseTetFile (''v 0 0 0'' @ [LF] @ ''f 1/1 2/2'' @ [LF] @ ''# end'') = Inl TypeError"
  by (rule short_face_line_fails [where line = "''f 1/1 2/2''"]) (simp_all add: trim_def isWhiteSpace_def elemAt_def)

text \<open>
  Claim C10 as stated fails. The lines \<^verbatim>\<open>f  1 2\<close> and \<^verbatim>\<open>f 1  2\<close>, with two spaces in one
  place, begin with the token \<^verbatim>\<open>f\<close> and carry the two corner tokens \<^verbatim>\<open>1\<close> and \<^verbatim>\<open>2\<close>, yet
  the parser returns: the empty piece between the two spaces is the third corner, of index
  \<open>NaN\<close>. The same tokens separated by tabs are one piece, which is no directive: the line
  is skipped.
\<close>

theorem short_face_line_counterexample:
  "parseTetFile ''f  1 2'' = Inr (newParsedTetFile\<lparr>parsedFaces := [[[NotANumber], [Index 0], [Index 1]]]\<rparr>)
   \<and> parseTetFile ''f 1  2'' = Inr (newParsedTetFile\<lparr>parsedFaces := [[[Index 0], [NotANumber], [Index 1]]]\<rparr>)
   \<and> parseTetFile (''f'' @ [CHR 0x09] @ ''1'' @ [CHR 0x09] @ ''2'') = Inr newParsedTetFile
   \<and> parseTetFile ''f  1 2'' \<noteq> Inl TypeError"
  by code_simp

lemma set_joinWith: "set (joinWith sep tokens) \<subseteq> set sep \<union> \<Union> (set ` set tokens)"
  by (induction sep tokens rule: joinWith.induct) auto

lemma parseLine_single_token:
  assumes ne: "tokens \<noteq> []"
    and tok: "list_all (\<lambda>t. t \<noteq> [] \<and> list_all (\<lambda>c. \<not> isWhiteSpace c) t) tokens"
    and hash: "hd (hd tokens) \<noteq> CHR ''#''"
    and sep: "CHR '' '' \<notin> set sep"
  shows "parseLine (joinWith sep tokens) r = parseValues [joinWith sep tokens] r"
proof -
  let ?line = "joinWith sep tokens"
  have nonempty: "list_all (\<lambda>t. t \<noteq> []) tokens"
    using tok by (simp add: list_all_iff)
  have hdne: "hd tokens \<noteq> []"
    using ne nonempty by (cases tokens) auto
  have lastne: "last tokens \<noteq> []"
    using ne nonempty by (auto simp: list_all_iff)
  have "hd tokens \<in> set tokens" "last tokens \<in> set tokens"
    using ne by auto
  then have "\<not> isWhiteSpace (hd (hd tokens))" "\<not> isWhiteSpace (last (last tokens))"
    using tok hdne lastne by (auto simp: list_all_iff)
  then have "trim ?line = ?line"
    using ne hdne nonempty by (simp add: trim_id hd_joinWith last_joinWith joinWith_not_Nil)
  moreover have "\<not> startsWith ?line ''#''"
    using hash hd_joinWith [OF ne hdne, of sep] joinWith_not_Nil [OF ne hdne, of sep]
    by (cases ?line) (auto simp: startsWith_def)
  moreover have "CHR '' '' \<notin> set ?line"
    using set_joinWith [of sep tokens] sep tok by (auto simp: list_all_iff isWhiteSpace_def)
  then have "split (CHR '' '') ?line = [?line]"
    by (rule split_no_sep)
  ultimately show ?thesis
    by (simp add: parseLine_def)
qed

text \<open>
  Claim C8, as amended. A directive line is tokenized at single space characters, after
  the line is trimmed. For every non-empty list of non-empty tokens free of white space,
  the first of which does not begin with \<^verbatim>\<open>#\<close>, the line that separates the tokens by
  single spaces is processed as the \<^verbatim>\<open>switch\<close> on exactly those tokens, while the line that
  separates them by tabs is one single token.
\<close>

theorem single_space_tokens:
  assumes "tokens \<noteq> []"
    and "list_all (\<lambda>t. t \<noteq> [] \<and> list_all (\<lambda>c. \<not> isWhiteSpace c) t) tokens"
    and "hd (hd tokens) \<noteq> CHR ''#''"
  shows "parseLine (joinWith '' '' tokens) r = parseValues tokens r
    \<and> parseLine (joinWith [CHR 0x09] tokens) r = parseValues [joinWith [CHR 0x09] tokens] r"
  using assms by (simp add: parseLine_joinWith parseLine_single_token)

text \<open>The tokens \<^verbatim>\<open>v\<close>, \<^verbatim>\<open>1\<close>, \<^verbatim>\<open>2\<close>, \<^verbatim>\<open>3\<close>.\<close>

theorem single_space_tokens_witness:
  "parseLine ''v 1 2 3'' newParsedTetFile = parseValues [''v'', ''1'', ''2'', ''3''] newParsedTetFile
   \<and> parseLine (''v'' @ [CHR 0x09] @ ''1'' @ [CHR 0x09] @ ''2'' @ [CHR 0x09] @ ''3'') newParsedTetFile
       = parseValues [''v'' @ [CHR 0x09] @ ''1'' @ [CHR 0x09] @ ''2'' @ [CHR 0x09] @ ''3''] newParsedTetFile"
  using single_space_tokens [of "[''v'', ''1'', ''2'', ''3'']" newParsedTetFile]
  by (simp add: isWhiteSpace_def)

lemma tab_line: "parseTetFile (joinWith [CHR 0x09] [''v'', ''1'', ''2'', ''3'']) = Inr newParsedTetFile"
  by code_simp

lemma space_line: "parseTetFile (joinWith '' '' [''v'', ''1'', ''2'', ''3'']) =
    Inr (newParsedTetFile\<lparr>parsedVertices := [Fin 1, Fin 2, Fin 3]\<rparr>)"
  by code_simp

lemma spaces_line: "parseTetFile (joinWith ''  '' [''v'', ''1'', ''2'', ''3'']) =
    Inr (newParsedTetFile\<lparr>parsedVertices := [NaN, Fin 1, NaN]\<rparr>)"
  by code_simp

text \<open>
  Claim C8 as stated fails: the vertex line \<^verbatim>\<open>v 1 2 3\<close> gives one vertex, the same tokens
  separated by tabs give none, and separated by two spaces they give a vertex of
  \<open>NaN\<close>, 1 and \<open>NaN\<close>.
\<close>

theorem whitespace_tokens_counterexample:
  "parseTetFile (joinWith [CHR 0x09] [''v'', ''1'', ''2'', ''3''])
     \<noteq> parseTetFile (joinWith '' '' [''v'', ''1'', ''2'', ''3''])
   \<and> parseTetFile (joinWith ''  '' [''v'', ''1'', ''2'', ''3''])
     \<noteq> parseTetFile (joinWith '' '' [''v'', ''1'', ''2'', ''3''])"
  unfolding tab_line space_line spaces_line by (simp add: newParsedTetFile_def)

section \<open>What the recomputations leave alone\<close>

lemma recalcFace_length:
  "recalcFace vs face i bufs = Inr bufs' \<Longrightarrow>
     length (fst bufs') = length (fst bufs) \<and> length (snd bufs') = length (snd bufs)"
  by (auto simp: recalcFace_def Let_def split: if_splits)

lemma recalcFaces_length:
  "recalcFaces vs fs i bufs = Inr bufs' \<Longrightarrow>
     length (fst bufs') = length (fst bufs) \<and> length (snd bufs') = length (snd bufs)"
proof (induction fs arbitrary: i bufs)
  case Nil
  then show ?case by simp
next
  case (Cons face fs)
  then show ?case
    by (auto split: sum.splits dest!: recalcFace_length)
qed

lemma recalcVertex_length [simp]: "length (recalcVertex fns fas e ns) = length ns"
  by (simp add: recalcVertex_def Let_def split: prod.splits)

lemma recalcVertices_length [simp]: "length (recalcVertices fns fas m ns) = length ns"
  by (induction m arbitrary: ns) auto

lemma expandCorner_length [simp]: "length (fst (expandCorner src c st)) = length (fst st)"
  by (simp add: expandCorner_def Let_def)

lemma expandFace_length [simp]: "length (fst (expandFace src face st)) = length (fst st)"
  by (induction face arbitrary: st) auto

lemma expandFaces_length [simp]: "length (fst (expandFaces src fs st)) = length (fst st)"
  by (induction fs arbitrary: st) auto

lemma texCorner_length [simp]: "length (fst (texCorner tcs c st)) = length (fst st)"
  by (simp add: texCorner_def Let_def)

lemma texFace_length [simp]: "length (fst (texFace tcs face st)) = length (fst st)"
  by (induction face arbitrary: st) auto

lemma texFaces_length [simp]: "length (fst (texFaces tcs fs st)) = length (fst st)"
  by (induction fs arbitrary: st) auto

lemma recalcNormals_frame:
  assumes "recalcNormals t = Inr t'"
  shows "vertices t' = vertices t" "tetsIndices t' = tetsIndices t" "texCoords t' = texCoords t"
    "faces t' = faces t" "connectedFaces t' = connectedFaces t"
    "verticesPositions t' = verticesPositions t" "verticesTexCoords t' = verticesTexCoords t"
    "triangleCount t' = triangleCount t"
  using assms by (auto simp: recalcNormals_def Let_def split: sum.splits prod.splits)

lemma recalcNormals_lengths:
  assumes "recalcNormals t = Inr t'"
  shows "length (faceNormals t') = length (faceNormals t)" "length (faceAreas t') = length (faceAreas t)"
    "length (normals t') = length (normals t)" "length (verticesNormals t') = length (verticesNormals t)"
  using assms by (auto simp: recalcNormals_def Let_def split: sum.splits prod.splits dest!: recalcFaces_length)

lemma copyDataToBuffer_frame:
  "vertices (copyDataToBuffer t) = vertices t" "tetsIndices (copyDataToBuffer t) = tetsIndices t"
  "normals (copyDataToBuffer t) = normals t" "texCoords (copyDataToBuffer t) = texCoords t"
  "faceNormals (copyDataToBuffer t) = faceNormals t" "faceAreas (copyDataToBuffer t) = faceAreas t"
  "faces (copyDataToBuffer t) = faces t" "connectedFaces (copyDataToBuffer t) = connectedFaces t"
  "verticesTexCoords (copyDataToBuffer t) = verticesTexCoords t"
  "verticesNormals (copyDataToBuffer t) = verticesNormals t"
  "triangleCount (copyDataToBuffer t) = triangleCount t"
  "length (verticesPositions (copyDataToBuffer t)) = length (verticesPositions t)"
  by (simp_all add: copyDataToBuffer_def)

lemma buildTetFile_Inr:
  assumes "buildTetFile tet = Inr t"
  obtains cf t1 where "connectFaces (parsedFaces tet) 0 [] = Inr cf"
    and "recalcNormals (newTetFile tet cf) = Inr t1"
    and "t = (copyDataToBuffer t1)\<lparr>geometry := Some newGeometry\<rparr>"
  using assms by (auto simp: buildTetFile_def split: sum.splits)

lemma buildTetFile_fields:
  assumes "buildTetFile tet = Inr t"
  shows "vertices t = parsedVertices tet" "faces t = parsedFaces tet"
    "triangleCount t = length (parsedFaces tet)"
    "connectFaces (parsedFaces tet) 0 [] = Inr (connectedFaces t)"
    "length (normals t) = length (parsedVertices tet) * 3"
    "length (faceNormals t) = length (parsedFaces tet) * 3"
    "length (faceAreas t) = length (parsedFaces tet)"
    "length (verticesPositions t) = length (parsedFaces tet) * 3 * 3"
    "length (verticesTexCoords t) = length (parsedFaces tet) * 3 * 2"
    "length (verticesNormals t) = length (parsedFaces tet) * 3 * 3"
proof -
  from assms obtain cf t1 where cf: "connectFaces (parsedFaces tet) 0 [] = Inr cf"
    and t1: "recalcNormals (newTetFile tet cf) = Inr t1"
    and t: "t = (copyDataToBuffer t1)\<lparr>geometry := Some newGeometry\<rparr>"
    by (rule buildTetFile_Inr)
  note fr = recalcNormals_frame [OF t1] recalcNormals_lengths [OF t1]
  show "vertices t = parsedVertices tet" "faces t = parsedFaces tet"
    "triangleCount t = length (parsedFaces tet)"
    "connectFaces (parsedFaces tet) 0 [] = Inr (connectedFaces t)"
    "length (normals t) = length (parsedVertices tet) * 3"
    "length (faceNormals t) = length (parsedFaces tet) * 3"
    "length (faceAreas t) = length (parsedFaces tet)"
    "length (verticesPositions t) = length (parsedFaces tet) * 3 * 3"
    "length (verticesTexCoords t) = length (parsedFaces tet) * 3 * 2"
    "length (verticesNormals t) = length (parsedFaces tet) * 3 * 3"
    using cf by (simp_all add: t copyDataToBuffer_frame fr newTetFile_def Let_def)
qed

section \<open>Properties of the mesh build\<close>

lemma parseFace_length:
  "parseFace values is face = Inr face' \<Longrightarrow> length face' = length face + length is"
  by (induction "is" arbitrary: face) (auto split: sum.splits)

lemma parseCorner_not_Nil: "parseCorner x = Inr c \<Longrightarrow> c \<noteq> []"
  by (auto simp: parseCorner_def split: option.splits)

lemma parseFace_corners:
  "parseFace values is face = Inr face' \<Longrightarrow> list_all (\<lambda>c. c \<noteq> []) face \<Longrightarrow> list_all (\<lambda>c. c \<noteq> []) face'"
  by (induction "is" arbitrary: face) (auto split: sum.splits dest: parseCorner_not_Nil)

lemma parseFace_triangle: "parseFace values [0, 1, 2] [] = Inr face \<Longrightarrow> triangle face"
  unfolding triangle_def
  using parseFace_length [of "values" "[0, 1, 2]" "[]" face]
    parseFace_corners [of "values" "[0, 1, 2]" "[]" face]
  by simp

lemma parseValues_triangles:
  assumes "parseValues values r = Inr r'" "list_all triangle (parsedFaces r)"
  shows "list_all triangle (parsedFaces r')"
proof (cases "parseFace values [0, 1, 2] []")
  case (Inl e)
  then show ?thesis
    using assms by (auto simp: parseValues_def simp del: parseFace.simps split: if_splits)
next
  case (Inr face)
  then show ?thesis
    using assms parseFace_triangle [OF Inr]
    by (auto simp: parseValues_def simp del: parseFace.simps split: if_splits)
qed

lemma parseLine_triangles:
  "parseLine line r = Inr r' \<Longrightarrow> list_all triangle (parsedFaces r) \<Longrightarrow> list_all triangle (parsedFaces r')"
  by (auto simp: parseLine_def Let_def split: if_splits dest: parseValues_triangles)

lemma parseLines_triangles:
  "parseLines ls r = Inr r' \<Longrightarrow> list_all triangle (parsedFaces r) \<Longrightarrow> list_all triangle (parsedFaces r')"
  by (induction ls arbitrary: r) (auto split: sum.splits dest: parseLine_triangles)

lemma parseTetFile_triangles: "parseTetFile text = Inr r \<Longrightarrow> list_all triangle (parsedFaces r)"
  by (auto simp: parseTetFile_def newParsedTetFile_def dest: parseLines_triangles)

lemma loadTet_Inr:
  assumes "loadTet text = Inr t"
  obtains tet where "parseTetFile text = Inr tet" "buildTetFile tet = Inr t"
  using assms by (auto simp: loadTet_def split: sum.splits)

text \<open>
  Claim C3. When the load of a text succeeds, the face count is the number of faces and
  the three per-corner buffers hold three entries per face: 3 floats each for positions
  and normals, 2 floats each for texture coordinates. A call of \<^verbatim>\<open>recalcNormals\<close> or of
  \<^verbatim>\<open>copyDataToBuffer\<close>, on any mesh, leaves the length of each of the three buffers as
  it was.
\<close>

theorem per_corner_buffer_lengths:
  assumes "loadTet text = Inr t" and "recalcNormals s = Inr s'"
  shows "triangleCount t = length (faces t)
    \<and> length (verticesPositions t) = 3 * (3 * length (faces t))
    \<and> length (verticesTexCoords t) = 2 * (3 * length (faces t))
    \<and> length (verticesNormals t) = 3 * (3 * length (faces t))
    \<and> length (verticesPositions s') = length (verticesPositions s)
    \<and> length (verticesTexCoords s') = length (verticesTexCoords s)
    \<and> length (verticesNormals s') = length (verticesNormals s)
    \<and> length (verticesPositions (copyDataToBuffer s)) = length (verticesPositions s)
    \<and> length (verticesTexCoords (copyDataToBuffer s)) = length (verticesTexCoords s)
    \<and> length (verticesNormals (copyDataToBuffer s)) = length (verticesNormals s)"
proof -
  from assms(1) obtain tet where "buildTetFile tet = Inr t"
    by (rule loadTet_Inr)
  note b = buildTetFile_fields [OF this]
  show ?thesis
    using b recalcNormals_frame [OF assms(2)] recalcNormals_lengths [OF assms(2)]
    by (simp add: copyDataToBuffer_frame)
qed

subsection \<open>Adjacency\<close>

lemma connectVertex_keys: "fst ` set (connectVertex v f m) = insert v (fst ` set m)"
  by (simp add: connectVertex_def Let_def dom_update)

lemma set_update_subset: "set (AList.update k v m) \<subseteq> insert (k, v) (set m)"
  by (induction m) auto

lemma connectVertex_duplicateFree:
  assumes "duplicateFree m"
  shows "duplicateFree (connectVertex v f m)"
proof -
  define c where "c = (case map_of m v of None \<Rightarrow> [] | Some c \<Rightarrow> c)"
  define c' where "c' = (if f \<in> set c then c else c @ [f])"
  have "distinct c"
    using assms unfolding c_def
    by (auto simp: duplicateFree_def list_all_iff split: option.splits dest!: map_of_SomeD)
  then have c': "c' \<noteq> [] \<and> distinct c'"
    unfolding c'_def by (cases "f \<in> set c") auto
  have "set (AList.update v c' m) \<subseteq> insert (v, c') (set m)"
    by (rule set_update_subset)
  then have "list_all (\<lambda>e. snd e \<noteq> [] \<and> distinct (snd e)) (AList.update v c' m)"
    using assms c' unfolding duplicateFree_def list_all_iff by auto
  moreover have "connectVertex v f m = AList.update v c' m"
    by (simp only: connectVertex_def Let_def c_def c'_def)
  moreover have "distinct (map fst (AList.update v c' m))"
    using assms by (simp add: duplicateFree_def distinct_update)
  ultimately show ?thesis
    by (simp only: duplicateFree_def simp_thms)
qed

lemma connectFace_keys:
  "connectFace face f ks m = Inr m' \<Longrightarrow>
     fst ` set m' = fst ` set m \<union> (\<lambda>k. entry (face ! k) 0) ` set ks"
  by (induction ks arbitrary: m) (auto simp: connectVertex_keys split: if_splits)

lemma connectFace_duplicateFree:
  "connectFace face f ks m = Inr m' \<Longrightarrow> duplicateFree m \<Longrightarrow> duplicateFree m'"
  by (induction ks arbitrary: m) (auto simp: connectVertex_duplicateFree split: if_splits)

lemma triangle_corners:
  assumes "triangle face"
  shows "(\<lambda>k. entry (face ! k) 0) ` set [0, 1, 2] = (\<lambda>c. entry c 0) ` set face"
proof -
  from assms obtain a b c where "face = [a, b, c]"
    by (auto simp: triangle_def length_Suc_conv numeral_3_eq_3)
  then show ?thesis by auto
qed

lemma connectFaces_keys:
  "connectFaces fs f m = Inr m' \<Longrightarrow> list_all triangle fs \<Longrightarrow>
     fst ` set m' = fst ` set m \<union> {v. adjacent fs v}"
proof (induction fs arbitrary: f m)
  case Nil
  then show ?case by (simp add: adjacent_def)
next
  case (Cons face fs)
  from Cons.prems obtain m1 where m1: "connectFace face f [0, 1, 2] m = Inr m1"
    and rest: "connectFaces fs (Suc f) m1 = Inr m'"
    by (auto split: sum.splits)
  have "triangle face"
    using Cons.prems(2) by simp
  then have "fst ` set m1 = fst ` set m \<union> (\<lambda>c. entry c 0) ` set face"
    using connectFace_keys [OF m1] by (simp only: triangle_corners)
  moreover have "fst ` set m' = fst ` set m1 \<union> {v. adjacent fs v}"
    using Cons.IH [OF rest] Cons.prems(2) by simp
  ultimately show ?case
    by (auto simp: adjacent_def list_ex_iff)
qed

lemma connectFaces_duplicateFree:
  "connectFaces fs f m = Inr m' \<Longrightarrow> duplicateFree m \<Longrightarrow> duplicateFree m'"
  by (induction fs arbitrary: f m)
     (auto simp del: connectFace.simps split: sum.splits dest: connectFace_duplicateFree)

text \<open>
  Claim C6. After a load that succeeds, the keys of the adjacency map are exactly the
  vertex indices that appear in a corner of some face, no key is there twice, and every
  face list is non-empty and free of duplicates, whether or not a face names a vertex in
  more than one corner.
\<close>

theorem adjacency_complete:
  assumes "loadTet text = Inr t"
  shows "(\<forall>v. (v \<in> fst ` set (connectedFaces t)) = adjacent (faces t) v)
    \<and> duplicateFree (connectedFaces t)"
proof -
  from assms obtain tet where p: "parseTetFile text = Inr tet" and b: "buildTetFile tet = Inr t"
    by (rule loadTet_Inr)
  note f = buildTetFile_fields [OF b]
  have "fst ` set (connectedFaces t) = {v. adjacent (faces t) v}"
    using connectFaces_keys [OF f(4)] parseTetFile_triangles [OF p] f(2) by simp
  moreover have "duplicateFree (connectedFaces t)"
    using connectFaces_duplicateFree [OF f(4)] by (simp add: duplicateFree_def)
  ultimately show ?thesis by auto
qed

subsection \<open>The vertex normal buffer\<close>

lemma one_vertex_parse:
  "parseTetFile ''v 0 0 0'' = Inr (newParsedTetFile\<lparr>parsedVertices := [Fin 0, Fin 0, Fin 0]\<rparr>)"
  by code_simp

text \<open>
  Claim C4 fails on the code. The file of the one vertex \<^verbatim>\<open>v 0 0 0\<close> loads into a mesh
  whose flat vertex array has 3 floats and whose vertex normal buffer has 9, not 3:
  \<^verbatim>\<open>loadTet\<close> allocates three floats per float of the vertex array.
\<close>

theorem normals_length_one_vertex:
  "map_sum id (\<lambda>t. (length (vertices t), length (normals t))) (loadTet ''v 0 0 0'') = Inr (3, 9)"
  by (simp add: loadTet_def one_vertex_parse buildTetFile_def newParsedTetFile_def newTetFile_def
      recalcNormals_def copyDataToBuffer_def)

section \<open>A mesh of one triangle\<close>

lemma triangle_parse: "parseTetFile triangleText = Inr triangleParsed"
  by code_simp

lemma sqrt_square: "0 \<le> r \<Longrightarrow> sqrt (r * r) = r"
  by simp

lemma sqrt_values:
  "sqrt 9 = 3" "sqrt 16 = 4" "sqrt 25 = 5" "sqrt 36 = 6" "sqrt 144 = 12"
  using sqrt_square [of 3] sqrt_square [of 4] sqrt_square [of 5] sqrt_square [of 6]
    sqrt_square [of 12]
  by simp_all

lemma triangle_connect:
  "connectFaces (parsedFaces triangleParsed) 0 [] = Inr [(Index 0, [0]), (Index 1, [0]), (Index 2, [0])]"
  by (simp add: triangleParsed_def connectVertex_def entry_def)

lemma triangle_new:
  "newTetFile triangleParsed cf =
     (triangleMesh None)\<lparr>normals := replicate 27 (Fin 0), faceNormals := replicate 3 (Fin 0),
        faceAreas := [Fin 0], connectedFaces := cf, verticesPositions := replicate 9 (Fin 0),
        verticesNormals := replicate 9 (Fin 0)\<rparr>"
  by (simp add: newTetFile_def triangleParsed_def triangleMesh_def texCorner_def entry_def
      f32get_def f32set_def numeral_eq_Suc)

lemma sqrt_frac: "sqrt (1 / 36) = 1 / 6"
  using sqrt_square [of "1 / 6"] by simp

lemma triangle_recalc_new:
  "recalcNormals (newTetFile triangleParsed [(Index 0, [0]), (Index 1, [0]), (Index 2, [0])]) =
     Inr ((triangleMesh None)\<lparr>verticesPositions := replicate 9 (Fin 0)\<rparr>)"
  by (simp add: triangle_new recalcNormals_def triangleMesh_def recalcFace_def recalcVertex_def
      expandCorner_def entry_def f32get_def f32set_def fsub_def sqrt_values sqrt_frac markNormal_def
      numeral_eq_Suc Let_def)

lemma triangle_copy:
  "copyDataToBuffer ((triangleMesh None)\<lparr>verticesPositions := replicate 9 (Fin 0)\<rparr>) = triangleMesh None"
  by (simp add: copyDataToBuffer_def triangleMesh_def expandCorner_def entry_def f32get_def f32set_def
      markPosition_def numeral_eq_Suc Let_def)

lemma triangle_load: "loadTet triangleText = Inr (triangleMesh (Some newGeometry))"
  by (simp add: loadTet_def triangle_parse buildTetFile_def triangle_connect triangle_recalc_new
      triangle_copy) (simp add: triangleMesh_def)

lemma triangle_recalc: "recalcNormals (triangleMesh g) = Inr (triangleMesh (markNormal g))"
  by (simp add: recalcNormals_def triangleMesh_def recalcFace_def recalcVertex_def
      expandCorner_def entry_def f32get_def f32set_def fsub_def sqrt_values sqrt_frac
      numeral_eq_Suc Let_def)

section \<open>The load of a parsed file never fails\<close>

lemma recalcFaces_succeeds:
  "list_all (\<lambda>face. 3 \<le> length face) fs \<Longrightarrow> \<exists>bufs'. recalcFaces vs fs i bufs = Inr bufs'"
proof (induction fs arbitrary: i bufs)
  case Nil
  then show ?case by simp
next
  case (Cons face fs)
  then obtain b1 where "recalcFace vs face i bufs = Inr b1"
    by (auto simp: recalcFace_def Let_def)
  then show ?case using Cons by simp
qed

lemma recalcNormals_succeeds:
  "list_all (\<lambda>face. 3 \<le> length face) (faces t) \<Longrightarrow> \<exists>t'. recalcNormals t = Inr t'"
  using recalcFaces_succeeds [of "faces t" "vertices t" 0 "(faceNormals t, faceAreas t)"]
  by (auto simp: recalcNormals_def Let_def split: prod.splits)

lemma connectFace_succeeds:
  "list_all (\<lambda>k. k < length face) ks \<Longrightarrow> \<exists>m'. connectFace face f ks m = Inr m'"
  by (induction ks arbitrary: m) auto

lemma connectFaces_succeeds:
  "list_all (\<lambda>face. 3 \<le> length face) fs \<Longrightarrow> \<exists>m'. connectFaces fs f m = Inr m'"
proof (induction fs arbitrary: f m)
  case Nil
  then show ?case by simp
next
  case (Cons face fs)
  then have "list_all (\<lambda>k. k < length face) [0, 1, 2]"
    by auto
  from connectFace_succeeds [OF this] obtain m1 where "connectFace face f [0, 1, 2] m = Inr m1"
    by blast
  then show ?case using Cons by (simp del: connectFace.simps)
qed

lemma triangle_three: "list_all triangle fs \<Longrightarrow> list_all (\<lambda>face. 3 \<le> length face) fs"
  by (simp add: list_all_iff triangle_def)

lemma buildTetFile_succeeds:
  assumes "list_all triangle (parsedFaces tet)"
  shows "\<exists>t. buildTetFile tet = Inr t"
proof -
  have three: "list_all (\<lambda>face. 3 \<le> length face) (parsedFaces tet)"
    using assms by (rule triangle_three)
  then obtain cf where cf: "connectFaces (parsedFaces tet) 0 [] = Inr cf"
    using connectFaces_succeeds by blast
  have "faces (newTetFile tet cf) = parsedFaces tet"
    by (simp add: newTetFile_def Let_def)
  then obtain t1 where "recalcNormals (newTetFile tet cf) = Inr t1"
    using recalcNormals_succeeds [of "newTetFile tet cf"] three by auto
  then show ?thesis
    using cf by (simp add: buildTetFile_def)
qed

lemma loadTet_succeeds: "parseTetFile text = Inr tet \<Longrightarrow> \<exists>t. loadTet text = Inr t"
  using buildTetFile_succeeds [of tet] parseTetFile_triangles [of "text" tet]
  by (simp add: loadTet_def)

section \<open>The properties at concrete meshes\<close>

text \<open>The triangle: one face, so 9, 6 and 9 floats, before and after a recomputation.\<close>

theorem per_corner_buffer_lengths_witness:
  "loadTet triangleText = Inr (triangleMesh (Some newGeometry))
   \<and> recalcNormals (triangleMesh (Some newGeometry)) = Inr (triangleMesh (markNormal (Some newGeometry)))
   \<and> length (verticesPositions (triangleMesh (Some newGeometry))) = 9
   \<and> length (verticesTexCoords (triangleMesh (Some newGeometry))) = 6
   \<and> length (verticesNormals (triangleMesh (Some newGeometry))) = 9
   \<and> length (verticesNormals (triangleMesh (markNormal (Some newGeometry)))) = 9"
  using per_corner_buffer_lengths [OF triangle_load triangle_recalc] triangle_load triangle_recalc
  by (simp add: triangleMesh_def)

lemma folded_parse:
  "parseTetFile foldedText =
     Inr (newParsedTetFile\<lparr>parsedVertices := [Fin 0, Fin 0, Fin 0, Fin 1, Fin 0, Fin 0],
            parsedFaces := [[[Index 0], [Index 0], [Index 1]], [[Index 1], [Index 0], [Index 1]]]\<rparr>)"
  by code_simp

text \<open>Each of the two vertices is connected to both faces, once.\<close>

theorem adjacency_complete_witness:
  "\<exists>t. loadTet foldedText = Inr t
     \<and> connectedFaces t = [(Index 0, [0, 1]), (Index 1, [0, 1])]
     \<and> (\<forall>v. (v \<in> fst ` set (connectedFaces t)) = adjacent (faces t) v)
     \<and> duplicateFree (connectedFaces t)"
proof -
  obtain t where t: "loadTet foldedText = Inr t"
    using loadTet_succeeds [OF folded_parse] by blast
  then have b: "buildTetFile (newParsedTetFile\<lparr>parsedVertices := [Fin 0, Fin 0, Fin 0, Fin 1, Fin 0, Fin 0],
            parsedFaces := [[[Index 0], [Index 0], [Index 1]], [[Index 1], [Index 0], [Index 1]]]\<rparr>) = Inr t"
    by (simp add: loadTet_def folded_parse)
  have "connectedFaces t = [(Index 0, [0, 1]), (Index 1, [0, 1])]"
    using buildTetFile_fields(4) [OF b]
    by (simp add: newParsedTetFile_def connectVertex_def entry_def Let_def)
  then show ?thesis
    using adjacency_complete [OF t] t by blast
qed

section \<open>Reads after writes\<close>

lemma valid_f32set [simp]: "valid (f32set a j v) k = valid a k"
  by (cases k) (simp_all add: valid_def)

lemma f32get_f32set: "f32get (f32set a j v) k = (if j = k \<and> valid a k then v else f32get a k)"
  by (auto simp: f32get_def f32set_def valid_def nat_eq_iff split: option.splits)

lemma list_eq_f32get:
  assumes "length a = length b" and "\<And>k. f32get a k = f32get b k"
  shows "a = b"
proof (rule nth_equalityI)
  show "length a = length b" by fact
next
  fix i assume "i < length a"
  then show "a ! i = b ! i"
    using assms(1) assms(2) [of "Some (int i)"] by (simp add: f32get_def)
qed

lemma writeAll_simps [simp]:
  "writeAll [] a = a"
  "writeAll (w # ws) a = writeAll ws (f32set a (fst w) (snd w))"
  "writeAll (ws @ ws') a = writeAll ws' (writeAll ws a)"
  by (simp_all add: writeAll_def)

lemma length_writeAll [simp]: "length (writeAll ws a) = length a"
  by (induction ws arbitrary: a) auto

lemma valid_writeAll [simp]: "valid (writeAll ws a) k = valid a k"
  by (cases k) (simp_all add: valid_def)

lemma f32get_writeAll:
  "f32get (writeAll ws a) k =
     (case lastWrite ws k of None \<Rightarrow> f32get a k | Some v \<Rightarrow> if valid a k then v else f32get a k)"
  by (induction ws arbitrary: a) (auto simp: f32get_f32set split: option.splits)

lemma writeAll_idem: "writeAll ws (writeAll ws a) = writeAll ws a"
  by (rule list_eq_f32get) (auto simp: f32get_writeAll split: option.splits)

section \<open>The loops of \<^verbatim>\<open>recalcNormals\<close> as lists of writes\<close>

text \<open>
  Each loop writes values that do not depend on the buffer it writes to: the first
  loop reads the vertex positions, the second the face normals and areas, the third the
  vertex normals.
\<close>

lemma half: "fmul x (Fin (1 / 2)) = fdiv x (Fin 2)"
  by (cases x) (auto simp: signedInf_def)

lemma recalcFace_eq:
  assumes "3 \<le> length face"
  shows "recalcFace vs face i bufs =
     Inr (writeAll [(Some (int i * 3 + 0), fst (faceNormal vs face)),
                    (Some (int i * 3 + 1), fst (snd (faceNormal vs face))),
                    (Some (int i * 3 + 2), snd (snd (faceNormal vs face)))] (fst bufs),
          writeAll [(Some (int i), faceArea vs face)] (snd bufs))"
proof -
  have "\<not> length face < 3"
    using assms by simp
  then show ?thesis
    unfolding recalcFace_def faceNormal_def faceArea_def vec3At_def heron_def Let_def
    by (simp add: half)
qed

lemma recalcFace_Inr:
  assumes "recalcFace vs face i bufs = Inr bufs'"
  shows "3 \<le> length face"
proof (rule ccontr)
  assume "\<not> 3 \<le> length face"
  then have "recalcFace vs face i bufs = Inl TypeError"
    by (simp add: recalcFace_def)
  with assms show False by simp
qed

lemma recalcFaces_Inr:
  "recalcFaces vs fs i bufs = Inr bufs' \<Longrightarrow> list_all (\<lambda>face. 3 \<le> length face) fs"
  by (induction fs arbitrary: i bufs) (auto split: sum.splits dest: recalcFace_Inr)

lemma recalcFaces_writes:
  "list_all (\<lambda>face. 3 \<le> length face) fs \<Longrightarrow>
     recalcFaces vs fs i bufs =
       Inr (writeAll (normalWrites vs fs i) (fst bufs), writeAll (areaWrites vs fs i) (snd bufs))"
  by (induction fs arbitrary: i bufs) (auto simp: recalcFace_eq)

lemma recalcVertex_writes: "recalcVertex fns fas e ns = writeAll (vertexWrites fns fas e) ns"
  by (simp add: recalcVertex_def vertexWrites_def vertexNormal_def Let_def split: prod.splits)

lemma recalcVertices_writes:
  "recalcVertices fns fas m ns = writeAll (concat (map (vertexWrites fns fas) m)) ns"
  by (induction m arbitrary: ns) (auto simp: recalcVertex_writes)

lemma cornerWrites_append:
  "cornerWrites src (cs @ ds) k = cornerWrites src cs k @ cornerWrites src ds (k + length cs)"
  by (induction cs arbitrary: k) auto

lemma expandFace_writes:
  "expandFace src face st = (writeAll (cornerWrites src face (snd st)) (fst st), snd st + length face)"
  by (induction face arbitrary: st) (auto simp: expandCorner_def Let_def)

lemma expandFaces_writes:
  "expandFaces src fs st =
     (writeAll (cornerWrites src (concat fs) (snd st)) (fst st), snd st + length (concat fs))"
  by (induction fs arbitrary: st) (auto simp: expandFace_writes cornerWrites_append)

lemma recalcNormals_writes:
  assumes "recalcNormals t = Inr t'"
  shows "faceNormals t' = writeAll (normalWrites (vertices t) (faces t) 0) (faceNormals t)"
    and "faceAreas t' = writeAll (areaWrites (vertices t) (faces t) 0) (faceAreas t)"
    and "normals t' =
      writeAll (concat (map (vertexWrites (faceNormals t') (faceAreas t')) (connectedFaces t))) (normals t)"
    and "verticesNormals t' = writeAll (cornerWrites (normals t') (concat (faces t)) 0) (verticesNormals t)"
proof -
  from assms obtain fns fas where
    rf: "recalcFaces (vertices t) (faces t) 0 (faceNormals t, faceAreas t) = Inr (fns, fas)"
    by (auto simp: recalcNormals_def split: sum.splits)
  have ok: "list_all (\<lambda>face. 3 \<le> length face) (faces t)"
    using rf by (rule recalcFaces_Inr)
  have fns: "fns = writeAll (normalWrites (vertices t) (faces t) 0) (faceNormals t)"
    and fas: "fas = writeAll (areaWrites (vertices t) (faces t) 0) (faceAreas t)"
    using rf by (simp_all add: recalcFaces_writes [OF ok])
  have t': "t' = t\<lparr>faceNormals := fns, faceAreas := fas,
      normals := recalcVertices fns fas (connectedFaces t) (normals t),
      verticesNormals := fst (expandFaces (recalcVertices fns fas (connectedFaces t) (normals t))
         (faces t) (verticesNormals t, 0)),
      geometry := markNormal (geometry t)\<rparr>"
    using assms rf by (simp add: recalcNormals_def Let_def)
  show "faceNormals t' = writeAll (normalWrites (vertices t) (faces t) 0) (faceNormals t)"
    by (simp add: t' fns)
  show "faceAreas t' = writeAll (areaWrites (vertices t) (faces t) 0) (faceAreas t)"
    by (simp add: t' fas)
  show "normals t' =
      writeAll (concat (map (vertexWrites (faceNormals t') (faceAreas t')) (connectedFaces t))) (normals t)"
    by (simp add: t' recalcVertices_writes)
  show "verticesNormals t' = writeAll (cornerWrites (normals t') (concat (faces t)) 0) (verticesNormals t)"
    by (simp add: t' expandFaces_writes)
qed

section \<open>The geometry may be absent\<close>

text \<open>
  Claim C9. On a mesh with no geometry whose faces have their three corners,
  \<^verbatim>\<open>recalcNormals\<close> returns, and every buffer write of its three loops is done: the face
  normals and the face areas are the old buffers with the writes of the first loop, the
  vertex normals the old buffer with the writes of the second loop, computed from the new
  face normals and areas, and the per-corner normals the old buffer with the writes of
  the third loop, which copy the new vertex normals. \<^verbatim>\<open>copyDataToBuffer\<close>, which cannot
  fail, leaves the per-corner positions as the old buffer with the copies of the vertex
  positions written. The geometry is still absent after either call, and nothing else
  differs from the call with a geometry in place: that call returns the same mesh, but
  for the geometry, whose flag is set.
\<close>

theorem absent_geometry:
  assumes "geometry t = None" and "list_all (\<lambda>face. 3 \<le> length face) (faces t)"
  shows "\<exists>t'. recalcNormals t = Inr t' \<and> geometry t' = None
      \<and> faceNormals t' = writeAll (normalWrites (vertices t) (faces t) 0) (faceNormals t)
      \<and> faceAreas t' = writeAll (areaWrites (vertices t) (faces t) 0) (faceAreas t)
      \<and> normals t' =
          writeAll (concat (map (vertexWrites (faceNormals t') (faceAreas t')) (connectedFaces t))) (normals t)
      \<and> verticesNormals t' = writeAll (cornerWrites (normals t') (concat (faces t)) 0) (verticesNormals t)
      \<and> verticesPositions (copyDataToBuffer t) =
          writeAll (cornerWrites (vertices t) (concat (faces t)) 0) (verticesPositions t)
      \<and> geometry (copyDataToBuffer t) = None
      \<and> (\<forall>g. recalcNormals (t\<lparr>geometry := Some g\<rparr>) =
             Inr (t'\<lparr>geometry := Some (g\<lparr>normalNeedsUpdate := True\<rparr>)\<rparr>))
      \<and> (\<forall>g. copyDataToBuffer (t\<lparr>geometry := Some g\<rparr>) =
             (copyDataToBuffer t)\<lparr>geometry := Some (g\<lparr>positionNeedsUpdate := True\<rparr>)\<rparr>)"
proof -
  obtain t' where t': "recalcNormals t = Inr t'"
    using recalcNormals_succeeds [OF assms(2)] by blast
  note w = recalcNormals_writes [OF t']
  have g: "geometry t' = None"
    using t' assms(1) by (auto simp: recalcNormals_def Let_def markNormal_def split: sum.splits prod.splits)
  have rg: "recalcNormals (t\<lparr>geometry := Some g\<rparr>) =
      Inr (t'\<lparr>geometry := Some (g\<lparr>normalNeedsUpdate := True\<rparr>)\<rparr>)" for g
    using t' by (auto simp: recalcNormals_def Let_def markNormal_def split: sum.splits prod.splits)
  have vp: "verticesPositions (copyDataToBuffer t) =
      writeAll (cornerWrites (vertices t) (concat (faces t)) 0) (verticesPositions t)"
    by (simp add: copyDataToBuffer_def expandFaces_writes)
  have cg: "geometry (copyDataToBuffer t) = None"
    using assms(1) by (simp add: copyDataToBuffer_def markPosition_def)
  have cc: "copyDataToBuffer (t\<lparr>geometry := Some g\<rparr>) =
      (copyDataToBuffer t)\<lparr>geometry := Some (g\<lparr>positionNeedsUpdate := True\<rparr>)\<rparr>" for g
    by (simp add: copyDataToBuffer_def markPosition_def)
  show ?thesis
    using t' g w vp cg rg cc by blast
qed

text \<open>
  The triangle as \<^verbatim>\<open>loadTet\<close> allocates it, all buffers zero and no geometry yet: the first
  call fills in the normal \<open>(0, 0, 1)\<close> and the area 6, the second the positions of the
  three corners.
\<close>

theorem absent_geometry_witness:
  "geometry (newTetFile triangleParsed [(Index 0, [0]), (Index 1, [0]), (Index 2, [0])]) = None
   \<and> faceNormals (newTetFile triangleParsed [(Index 0, [0]), (Index 1, [0]), (Index 2, [0])])
       = [Fin 0, Fin 0, Fin 0]
   \<and> verticesPositions (newTetFile triangleParsed [(Index 0, [0]), (Index 1, [0]), (Index 2, [0])])
       = replicate 9 (Fin 0)
   \<and> (\<exists>t'. recalcNormals (newTetFile triangleParsed [(Index 0, [0]), (Index 1, [0]), (Index 2, [0])]) = Inr t'
       \<and> geometry t' = None
       \<and> faceNormals t' = [Fin 0, Fin 0, Fin 1]
       \<and> faceAreas t' = [Fin 6]
       \<and> normals t' = [Fin 0, Fin 0, Fin 1, Fin 0, Fin 0, Fin 1, Fin 0, Fin 0, Fin 1] @ replicate 18 (Fin 0)
       \<and> verticesNormals t' = [Fin 0, Fin 0, Fin 1, Fin 0, Fin 0, Fin 1, Fin 0, Fin 0, Fin 1])
   \<and> verticesPositions (copyDataToBuffer (newTetFile triangleParsed [(Index 0, [0]), (Index 1, [0]), (Index 2, [0])]))
       = [Fin 0, Fin 0, Fin 0, Fin 3, Fin 0, Fin 0, Fin 0, Fin 4, Fin 0]
   \<and> geometry (copyDataToBuffer (newTetFile triangleParsed [(Index 0, [0]), (Index 1, [0]), (Index 2, [0])]))
       = None"
proof -
  let ?t = "newTetFile triangleParsed [(Index 0, [0]), (Index 1, [0]), (Index 2, [0])]"
  have g: "geometry ?t = None"
    and f: "list_all (\<lambda>face. 3 \<le> length face) (faces ?t)"
    and z: "faceNormals ?t = [Fin 0, Fin 0, Fin 0]" "verticesPositions ?t = replicate 9 (Fin 0)"
    by (simp_all add: triangle_new) (simp_all add: triangleMesh_def numeral_eq_Suc)
  have vs: "vertices ?t = [Fin 0, Fin 0, Fin 0, Fin 3, Fin 0, Fin 0, Fin 0, Fin 4, Fin 0]"
    and fs: "faces ?t = [[[Index 0, Index 0], [Index 1, Index 0], [Index 2, Index 0]]]"
    by (simp_all add: triangle_new) (simp_all add: triangleMesh_def)
  from absent_geometry [OF g f] obtain t' where t': "recalcNormals ?t = Inr t'" "geometry t' = None"
    and vp: "verticesPositions (copyDataToBuffer ?t) =
          writeAll (cornerWrites (vertices ?t) (concat (faces ?t)) 0) (verticesPositions ?t)"
    and cg: "geometry (copyDataToBuffer ?t) = None"
    by blast
  have "t' = (triangleMesh None)\<lparr>verticesPositions := replicate 9 (Fin 0)\<rparr>"
    using t'(1) by (simp add: triangle_recalc_new)
  then have fields: "faceNormals t' = [Fin 0, Fin 0, Fin 1]" "faceAreas t' = [Fin 6]"
    "normals t' = [Fin 0, Fin 0, Fin 1, Fin 0, Fin 0, Fin 1, Fin 0, Fin 0, Fin 1] @ replicate 18 (Fin 0)"
    "verticesNormals t' = [Fin 0, Fin 0, Fin 1, Fin 0, Fin 0, Fin 1, Fin 0, Fin 0, Fin 1]"
    by (simp_all add: triangleMesh_def)
  have "writeAll (cornerWrites (vertices ?t) (concat (faces ?t)) 0) (verticesPositions ?t)
      = [Fin 0, Fin 0, Fin 0, Fin 3, Fin 0, Fin 0, Fin 0, Fin 4, Fin 0]"
    unfolding vs fs z
    by (simp add: entry_def f32get_def f32set_def numeral_eq_Suc)
  then show ?thesis
    using g z t' fields vp cg by auto
qed

section \<open>Idempotence\<close>

text \<open>
  Claim C7. When \<^verbatim>\<open>recalcNormals\<close> has returned, the vertex positions are as they were,
  and a second call returns as well and leaves the face normals, the face areas, the
  vertex normals and the per-corner normals exactly as the first call left them.
\<close>

theorem recalcNormals_idempotent:
  assumes "recalcNormals t = Inr t1"
  shows "\<exists>t2. recalcNormals t1 = Inr t2 \<and> vertices t1 = vertices t
     \<and> faceNormals t2 = faceNormals t1 \<and> faceAreas t2 = faceAreas t1
     \<and> normals t2 = normals t1 \<and> verticesNormals t2 = verticesNormals t1"
proof -
  note fr = recalcNormals_frame [OF assms]
  have "list_all (\<lambda>face. 3 \<le> length face) (faces t1)"
    using assms fr(4) by (auto simp: recalcNormals_def split: sum.splits dest: recalcFaces_Inr)
  then obtain t2 where t2: "recalcNormals t1 = Inr t2"
    using recalcNormals_succeeds by blast
  note w1 = recalcNormals_writes [OF assms]
  note w2 = recalcNormals_writes [OF t2]
  have fn: "faceNormals t2 = faceNormals t1"
    using w2(1) w1(1) by (simp add: fr writeAll_idem)
  have fa: "faceAreas t2 = faceAreas t1"
    using w2(2) w1(2) by (simp add: fr writeAll_idem)
  have ns: "normals t2 = normals t1"
    using w2(3) w1(3) by (simp add: fr fn fa writeAll_idem)
  have "verticesNormals t2 = verticesNormals t1"
    using w2(4) w1(4) by (simp add: fr ns writeAll_idem)
  then show ?thesis
    using t2 fn fa ns fr(1) by blast
qed

text \<open>
  The triangle again, from a mesh whose areas and per-corner normals were overwritten: the
  first call restores them and the second changes nothing.
\<close>

theorem recalcNormals_idempotent_witness:
  "recalcNormals ((triangleMesh None)\<lparr>verticesNormals := replicate 9 NaN, faceAreas := [Fin 1]\<rparr>)
      = Inr (triangleMesh None)
   \<and> recalcNormals (triangleMesh None) = Inr (triangleMesh None)"
proof -
  have a: "recalcNormals ((triangleMesh None)\<lparr>verticesNormals := replicate 9 NaN, faceAreas := [Fin 1]\<rparr>)
      = Inr (triangleMesh None)"
    by (simp add: recalcNormals_def triangleMesh_def recalcFace_def recalcVertex_def
      expandCorner_def entry_def f32get_def f32set_def fsub_def sqrt_values sqrt_frac markNormal_def
      numeral_eq_Suc Let_def)
  obtain t2 where t2: "recalcNormals (triangleMesh None) = Inr t2"
    "faceNormals t2 = faceNormals (triangleMesh None)" "faceAreas t2 = faceAreas (triangleMesh None)"
    "normals t2 = normals (triangleMesh None)" "verticesNormals t2 = verticesNormals (triangleMesh None)"
    using recalcNormals_idempotent [OF a] by blast
  note fr = recalcNormals_frame [OF t2(1)]
  have "geometry t2 = None"
    using t2(1) by (auto simp: recalcNormals_def Let_def markNormal_def triangleMesh_def split: sum.splits prod.splits)
  then have "t2 = triangleMesh None"
    using t2 fr by (intro tetFile.equality) (simp_all add: triangleMesh_def)
  then show ?thesis
    using a t2(1) by simp
qed

section \<open>Face normals and face areas\<close>

lemma lastWrite_append:
  "lastWrite (a @ b) k = (case lastWrite b k of Some v \<Rightarrow> Some v | None \<Rightarrow> lastWrite a k)"
  by (induction a) (auto split: option.splits)

lemma lastWrite_normalWrites_below:
  "p < int i * 3 \<Longrightarrow> lastWrite (normalWrites vs fs i) (Some p) = None"
  by (induction fs arbitrary: i) auto

lemma lastWrite_areaWrites_below:
  "p < int i \<Longrightarrow> lastWrite (areaWrites vs fs i) (Some p) = None"
  by (induction fs arbitrary: i) auto

lemma lastWrite_normalWrites:
  assumes "j < length fs"
  shows "lastWrite (normalWrites vs fs i) (Some (int (i + j) * 3 + 0)) = Some (fst (faceNormal vs (fs ! j)))"
    and "lastWrite (normalWrites vs fs i) (Some (int (i + j) * 3 + 1)) = Some (fst (snd (faceNormal vs (fs ! j))))"
    and "lastWrite (normalWrites vs fs i) (Some (int (i + j) * 3 + 2)) = Some (snd (snd (faceNormal vs (fs ! j))))"
  using assms
proof (induction fs arbitrary: i j)
  case Nil
  {
    case 1 then show ?case by simp
  next
    case 2 then show ?case by simp
  next
    case 3 then show ?case by simp
  }
next
  case (Cons face rest)
  {
    case 1
    then show ?case
      using Cons.IH(1) [of "j - 1" "Suc i"]
      by (cases j) (simp_all add: lastWrite_normalWrites_below)
  next
    case 2
    then show ?case
      using Cons.IH(2) [of "j - 1" "Suc i"]
      by (cases j) (simp_all add: lastWrite_normalWrites_below)
  next
    case 3
    then show ?case
      using Cons.IH(3) [of "j - 1" "Suc i"]
      by (cases j) (simp_all add: lastWrite_normalWrites_below)
  }
qed

lemma lastWrite_areaWrites:
  "j < length fs \<Longrightarrow> lastWrite (areaWrites vs fs i) (Some (int (i + j))) = Some (faceArea vs (fs ! j))"
proof (induction fs arbitrary: i j)
  case Nil
  then show ?case by simp
next
  case (Cons face rest)
  then show ?case
    using Cons.IH [of "j - 1" "Suc i"]
    by (cases j) (simp_all add: lastWrite_areaWrites_below)
qed

text \<open>
  Claim C2. After \<^verbatim>\<open>recalcNormals\<close>, for every face, with \<open>P0\<close>, \<open>P1\<close>, \<open>P2\<close> the positions
  of its first three corners, the three floats of the face in the face normal buffer are
  the cross product of \<open>P0 - P1\<close> and \<open>P0 - P2\<close> divided by its norm, and the float of the
  face in the area buffer is Heron's formula with \<open>s = (a + b + c) / 2\<close> over the three
  Euclidean edge lengths. The buffers hold three floats and one float per face, as
  \<^verbatim>\<open>loadTet\<close> allocates them.
\<close>

theorem face_normal_and_area:
  assumes "recalcNormals t = Inr t'"
    and "faceIndex < length (faces t)"
    and "3 * length (faces t) \<le> length (faceNormals t)"
    and "length (faces t) \<le> length (faceAreas t)"
  shows "let face = faces t ! faceIndex;
             P0 = vec3At (vertices t) (entry (face ! 0) 0);
             P1 = vec3At (vertices t) (entry (face ! 1) 0);
             P2 = vec3At (vertices t) (entry (face ! 2) 0)
         in vec3At (faceNormals t') (Index (int faceIndex)) = normalize (cross (vsub P0 P1) (vsub P0 P2))
          \<and> f32get (faceAreas t') (Some (int faceIndex)) =
              heron (norm3 (vsub P0 P1)) (norm3 (vsub P0 P2)) (norm3 (vsub P1 P2))"
proof -
  note w = recalcNormals_writes(1,2) [OF assms(1)]
  have v: "valid (faceNormals t) (Some (int faceIndex * 3 + 0))"
    "valid (faceNormals t) (Some (int faceIndex * 3 + 1))"
    "valid (faceNormals t) (Some (int faceIndex * 3 + 2))"
    "valid (faceAreas t) (Some (int faceIndex))"
    using assms(2,3,4) by (auto simp: valid_def nat_add_distrib nat_mult_distrib)
  have "vec3At (faceNormals t') (Index (int faceIndex)) = faceNormal (vertices t) (faces t ! faceIndex)"
    using lastWrite_normalWrites [OF assms(2), of "vertices t" 0] v
    by (simp add: vec3At_def w f32get_writeAll)
  moreover have "f32get (faceAreas t') (Some (int faceIndex)) = faceArea (vertices t) (faces t ! faceIndex)"
    using lastWrite_areaWrites [OF assms(2), of "vertices t" 0] v
    by (simp add: w f32get_writeAll)
  ultimately show ?thesis
    by (simp add: faceNormal_def faceArea_def Let_def)
qed

lemma triangle_vertices:
  "vec3At (vertices (triangleMesh g)) (Index 0) = (Fin 0, Fin 0, Fin 0)"
  "vec3At (vertices (triangleMesh g)) (Index 1) = (Fin 3, Fin 0, Fin 0)"
  "vec3At (vertices (triangleMesh g)) (Index 2) = (Fin 0, Fin 4, Fin 0)"
  by (simp_all add: vec3At_def triangleMesh_def f32get_def)

text \<open>The triangle with sides 3, 4 and 5: the normal is \<open>(0, 0, 1)\<close> and the area is 6.\<close>

theorem face_normal_and_area_witness:
  "recalcNormals (triangleMesh None) = Inr (triangleMesh None)
   \<and> vec3At (faceNormals (triangleMesh None)) (Index 0) =
       normalize (cross (vsub (Fin 0, Fin 0, Fin 0) (Fin 3, Fin 0, Fin 0))
                        (vsub (Fin 0, Fin 0, Fin 0) (Fin 0, Fin 4, Fin 0)))
   \<and> f32get (faceAreas (triangleMesh None)) (Some 0) = heron (Fin 3) (Fin 4) (Fin 5)
   \<and> normalize (cross (vsub (Fin 0, Fin 0, Fin 0) (Fin 3, Fin 0, Fin 0))
                      (vsub (Fin 0, Fin 0, Fin 0) (Fin 0, Fin 4, Fin 0))) = (Fin 0, Fin 0, Fin 1)
   \<and> heron (Fin 3) (Fin 4) (Fin 5) = Fin 6"
proof -
  have r: "recalcNormals (triangleMesh None) = Inr (triangleMesh None)"
    by (simp add: triangle_recalc markNormal_def)
  have f: "faces (triangleMesh None) ! 0 = [[Index 0, Index 0], [Index 1, Index 0], [Index 2, Index 0]]"
    and l: "0 < length (faces (triangleMesh None))"
      "3 * length (faces (triangleMesh None)) \<le> length (faceNormals (triangleMesh None))"
      "length (faces (triangleMesh None)) \<le> length (faceAreas (triangleMesh None))"
    by (simp_all add: triangleMesh_def)
  have n: "norm3 (vsub (Fin 0, Fin 0, Fin 0) (Fin 3, Fin 0, Fin 0)) = Fin 3"
    "norm3 (vsub (Fin 0, Fin 0, Fin 0) (Fin 0, Fin 4, Fin 0)) = Fin 4"
    "norm3 (vsub (Fin 3, Fin 0, Fin 0) (Fin 0, Fin 4, Fin 0)) = Fin 5"
    by (simp_all add: fsub_def sqrt_values)
  have c: "normalize (cross (vsub (Fin 0, Fin 0, Fin 0) (Fin 3, Fin 0, Fin 0))
                      (vsub (Fin 0, Fin 0, Fin 0) (Fin 0, Fin 4, Fin 0))) = (Fin 0, Fin 0, Fin 1)"
    by (simp add: fsub_def sqrt_values)
  have h: "heron (Fin 3) (Fin 4) (Fin 5) = Fin 6"
    by (simp add: heron_def fsub_def sqrt_values)
  from face_normal_and_area [OF r l] show ?thesis
    by (simp add: f entry_def triangle_vertices Let_def n r c h del: normalize.simps cross.simps vsub.simps norm3.simps)
qed

section \<open>Vertex normals\<close>

subsection \<open>A fan of two triangles\<close>

lemma fan_parse: "parseTetFile fanText = Inr fanParsed"
  by code_simp

lemma fan_connect:
  "connectFaces (parsedFaces fanParsed) 0 [] =
     Inr [(Index 0, [0, 1]), (Index 1, [0]), (Index 2, [0]), (Index 3, [1]), (Index 4, [1])]"
  by (simp add: fanParsed_def connectVertex_def entry_def Let_def)

lemma sqrt_values2:
  "sqrt 64 = 8" "sqrt 100 = 10" "sqrt 576 = 24" "sqrt 2304 = 48" "sqrt (1 / 576) = 1 / 24"
  using sqrt_square [of 8] sqrt_square [of 10] sqrt_square [of 24] sqrt_square [of 48]
    sqrt_square [of "1 / 24"]
  by simp_all

lemma fan_faces:
  "recalcFaces (parsedVertices fanParsed) (parsedFaces fanParsed) 0 (replicate 6 (Fin 0), [Fin 0, Fin 0])
     = Inr ([Fin 0, Fin 0, Fin 1, Fin 1, Fin 0, Fin 0], [Fin 6, Fin 24])"
  by (simp add: fanParsed_def recalcFace_def entry_def f32get_def f32set_def fsub_def
      sqrt_values sqrt_values2 numeral_eq_Suc Let_def)

lemma sqrt_450: "sqrt (1 / 450) = sqrt 2 / 30"
proof -
  have "sqrt (1 / 450) = sqrt (2 / 900)"
    by simp
  also have "\<dots> = sqrt 2 / sqrt 900"
    by (rule real_sqrt_divide)
  also have "sqrt 900 = 30"
    using sqrt_square [of 30] by simp
  finally show ?thesis .
qed

lemma fan_vertex0: "1 / (15 * sqrt (1 / 450)) = sqrt 2"
  using real_div_sqrt [of 2] by (simp add: sqrt_450)

lemma fan_tex:
  "fst (texFaces [Fin 0, Fin 0]
          [[[Index 0, Index 0], [Index 1, Index 0], [Index 2, Index 0]],
           [[Index 0, Index 0], [Index 3, Index 0], [Index 4, Index 0]]]
          (replicate 12 (Fin 0), 0)) = replicate 12 (Fin 0)"
  by code_simp

lemma fan_new:
  "newTetFile fanParsed cf =
     fanMesh\<lparr>normals := replicate 45 (Fin 0), faceNormals := replicate 6 (Fin 0),
        faceAreas := [Fin 0, Fin 0], connectedFaces := cf, verticesPositions := replicate 18 (Fin 0),
        verticesNormals := replicate 18 (Fin 0), geometry := None\<rparr>"
  by (simp add: newTetFile_def fanParsed_def fanMesh_def fan_tex del: texFaces.simps)

lemma fan_vertices:
  "recalcVertices [Fin 0, Fin 0, Fin 1, Fin 1, Fin 0, Fin 0] [Fin 6, Fin 24]
     [(Index 0, [0, 1]), (Index 1, [0]), (Index 2, [0]), (Index 3, [1]), (Index 4, [1])]
     (replicate 45 (Fin 0)) = normals fanMesh"
  by (simp add: fanMesh_def recalcVertex_def f32get_def f32set_def sqrt_frac sqrt_values2 fan_vertex0
      numeral_eq_Suc Let_def)

lemma fan_expand:
  "fst (expandFaces (normals fanMesh) (faces fanMesh) (replicate 18 (Fin 0), 0)) = verticesNormals fanMesh"
  "fst (expandFaces (vertices fanMesh) (faces fanMesh) (replicate 18 (Fin 0), 0)) = verticesPositions fanMesh"
  by (simp_all add: fanMesh_def expandCorner_def entry_def f32get_def f32set_def numeral_eq_Suc Let_def)

lemma fan_recalc_new:
  "recalcNormals (newTetFile fanParsed
      [(Index 0, [0, 1]), (Index 1, [0]), (Index 2, [0]), (Index 3, [1]), (Index 4, [1])]) =
     Inr (fanMesh\<lparr>verticesPositions := replicate 18 (Fin 0), geometry := None\<rparr>)"
proof -
  let ?cf = "[(Index 0, [0, 1]), (Index 1, [0]), (Index 2, [0]), (Index 3, [1]), (Index 4, [1])]"
  define t0 where "t0 = newTetFile fanParsed ?cf"
  have fields: "vertices t0 = vertices fanMesh" "faces t0 = faces fanMesh"
    "faceNormals t0 = replicate 6 (Fin 0)" "faceAreas t0 = [Fin 0, Fin 0]"
    "connectedFaces t0 = ?cf" "normals t0 = replicate 45 (Fin 0)"
    "verticesNormals t0 = replicate 18 (Fin 0)" "geometry t0 = None"
    by (simp_all add: t0_def fan_new)
  have f: "recalcFaces (vertices fanMesh) (faces fanMesh) 0 (replicate 6 (Fin 0), [Fin 0, Fin 0])
     = Inr ([Fin 0, Fin 0, Fin 1, Fin 1, Fin 0, Fin 0], [Fin 6, Fin 24])"
    using fan_faces by (simp add: fanParsed_def fanMesh_def)
  have "recalcNormals t0 =
      Inr (t0\<lparr>faceNormals := [Fin 0, Fin 0, Fin 1, Fin 1, Fin 0, Fin 0], faceAreas := [Fin 6, Fin 24],
             normals := normals fanMesh, verticesNormals := verticesNormals fanMesh,
             geometry := None\<rparr>)"
    by (simp only: recalcNormals_def fields f fan_vertices fan_expand markNormal_def Let_def
        sum.case prod.case option.case)
  also have "t0\<lparr>faceNormals := [Fin 0, Fin 0, Fin 1, Fin 1, Fin 0, Fin 0], faceAreas := [Fin 6, Fin 24],
             normals := normals fanMesh, verticesNormals := verticesNormals fanMesh,
             geometry := None\<rparr> = fanMesh\<lparr>verticesPositions := replicate 18 (Fin 0), geometry := None\<rparr>"
    by (simp add: t0_def fan_new) (simp add: fanMesh_def)
  finally show ?thesis
    by (simp only: t0_def)
qed

lemma fan_load: "loadTet fanText = Inr fanMesh"
proof -
  have "copyDataToBuffer (fanMesh\<lparr>verticesPositions := replicate 18 (Fin 0), geometry := None\<rparr>)
      = fanMesh\<lparr>geometry := None\<rparr>"
    by (simp add: copyDataToBuffer_def fan_expand markPosition_def del: expandFaces.simps)
  then have "loadTet fanText = Inr ((fanMesh\<lparr>geometry := None\<rparr>)\<lparr>geometry := Some newGeometry\<rparr>)"
    by (simp only: loadTet_def fan_parse buildTetFile_def fan_connect fan_recalc_new sum.case)
  also have "(fanMesh\<lparr>geometry := None\<rparr>)\<lparr>geometry := Some newGeometry\<rparr> = fanMesh"
    by (simp add: fanMesh_def)
  finally show ?thesis .
qed

text \<open>What the second loop computes for a vertex with two faces.\<close>

lemma vertex_normal_two_faces:
  "vertexNormal fns fas [f, g] =
     (let A = fadd (fadd (Fin 0) (f32get fas (Some (int f)))) (f32get fas (Some (int g)));
          N = vadd (vadd (Fin 0, Fin 0, Fin 0) (vec3At fns (Index (int f)))) (vec3At fns (Index (int g)))
      in normalize (fdiv (fst N) A, fdiv (fst (snd N)) A, fdiv (snd (snd N)) A))"
  by (simp add: vertexNormal_def vec3At_def Let_def)

lemma sqrt_2_612: "sqrt 2 / 2 \<noteq> 24 / sqrt 612"
proof
  assume "sqrt 2 / 2 = 24 / sqrt 612"
  then have "(sqrt 2 / 2)\<^sup>2 = (24 / sqrt 612)\<^sup>2"
    by simp
  then show False
    by (simp add: power_divide)
qed

text \<open>
  Claim C1 fails on the code. In the mesh loaded from the fan, the vertex at the origin
  is connected to face 0, of normal \<open>(0, 0, 1)\<close> and area 6, and to face 1, of normal
  \<open>(1, 0, 0)\<close> and area 24. Its vertex normal is \<open>(\<surd>2/2, 0, \<surd>2/2)\<close>, the normalized
  plain sum of the two normals: the division by the area sum changes no direction and
  no normal is multiplied by its area. The normalized area-weighted sum is
  \<open>(24, 0, 6) / \<surd>612\<close>.
\<close>

theorem vertex_normal_not_area_weighted:
  "case loadTet fanText of
     Inl e \<Rightarrow> False
   | Inr t \<Rightarrow>
       map_of (connectedFaces t) (Index 0) = Some [0, 1]
     \<and> vec3At (faceNormals t) (Index 0) = (Fin 0, Fin 0, Fin 1) \<and> f32get (faceAreas t) (Some 0) = Fin 6
     \<and> vec3At (faceNormals t) (Index 1) = (Fin 1, Fin 0, Fin 0) \<and> f32get (faceAreas t) (Some 1) = Fin 24
     \<and> vec3At (normals t) (Index 0) = (Fin (sqrt 2 / 2), Fin 0, Fin (sqrt 2 / 2))
     \<and> areaWeightedNormal (faceNormals t) (faceAreas t) [0, 1] = (Fin (24 / sqrt 612), Fin 0, Fin (6 / sqrt 612))
     \<and> vec3At (normals t) (Index 0) \<noteq> areaWeightedNormal (faceNormals t) (faceAreas t) [0, 1]"
proof -
  have a: "areaWeightedNormal (faceNormals fanMesh) (faceAreas fanMesh) [0, 1] =
      (Fin (24 / sqrt 612), Fin 0, Fin (6 / sqrt 612))"
    by (simp add: areaWeightedNormal_def fanMesh_def vec3At_def f32get_def)
  have n: "vec3At (normals fanMesh) (Index 0) = (Fin (sqrt 2 / 2), Fin 0, Fin (sqrt 2 / 2))"
    by (simp add: fanMesh_def vec3At_def f32get_def)
  have "vec3At (normals fanMesh) (Index 0) \<noteq> areaWeightedNormal (faceNormals fanMesh) (faceAreas fanMesh) [0, 1]"
    unfolding a n using sqrt_2_612 by simp
  moreover have "map_of (connectedFaces fanMesh) (Index 0) = Some [0, 1]"
    "vec3At (faceNormals fanMesh) (Index 0) = (Fin 0, Fin 0, Fin 1)" "f32get (faceAreas fanMesh) (Some 0) = Fin 6"
    "vec3At (faceNormals fanMesh) (Index 1) = (Fin 1, Fin 0, Fin 0)" "f32get (faceAreas fanMesh) (Some 1) = Fin 24"
    by (simp_all add: fanMesh_def vec3At_def f32get_def)
  ultimately show ?thesis
    using a n by (simp only: fan_load sum.case simp_thms)
qed

end
